theory Spec2Isabelle
  imports Main "HOL-Library.Word"
begin

section \<open>Data model of \<open>ListenerManager\<close>\<close>

text \<open>
  The model follows \<^verbatim>\<open>lib/src/ListenerManager.h\<close> and \<^verbatim>\<open>lib/src/ListenerManager.cc\<close>.
  An \<^verbatim>\<open>EventLoop *\<close> is the identity of a loop, a \<^verbatim>\<open>std::function\<close> is either empty
  (\<open>None\<close>) or holds a callable, identified by a number. A member \<^verbatim>\<open>x_\<close> of the
  source is the field \<open>m_x\<close> here, since no Isabelle name ends with an underscore.
\<close>

type_synonym conf_cmds = "(string \<times> string) list"

type_synonym EventLoop = nat

datatype sockopt_callback = SockOptCallback nat

datatype connection_callback = ConnectionCallback nat

record ListenerInfo =
  m_ip :: string
  m_port :: "16 word"
  m_useSSL :: bool
  m_certFile :: string
  m_keyFile :: string
  m_useOldTLS :: bool
  m_sslConfCmds :: conf_cmds

text \<open>
  \<^verbatim>\<open>trantor::InetAddress\<close>: the literal and port it was built from, the address family
  it was parsed in, and whether parsing left it unspecified.
\<close>

record InetAddress =
  addrIp :: string
  addrPort :: "16 word"
  isIpV6 :: bool
  isUnspecified :: bool

text \<open>\<^verbatim>\<open>trantor::TLSPolicy\<close>, as far as \<^verbatim>\<open>createListeners\<close> fills it.\<close>

record TLSPolicy =
  certPath :: string
  keyPath :: string
  confCmds :: conf_cmds
  policyUseOldTLS :: bool

text \<open>
  \<^verbatim>\<open>HttpServer\<close>, as far as \<^verbatim>\<open>ListenerManager\<close> configures it: the constructor's three
  arguments, the three callbacks, the TLS policy given to \<^verbatim>\<open>enableSSL\<close> and the loops
  given to \<^verbatim>\<open>setIoLoops\<close>.
\<close>

record HttpServer =
  serverLoop :: EventLoop
  serverAddress :: InetAddress
  serverName :: string
  beforeListenSockOptCallback :: "sockopt_callback option"
  afterAcceptSockOptCallback :: "sockopt_callback option"
  connectionCallback :: "connection_callback option"
  sslPolicy :: "TLSPolicy option"
  ioLoops :: "EventLoop list"

record EventLoopThread =
  threadName :: string
  threadLoop :: EventLoop

record ListenerManager =
  m_listeners :: "ListenerInfo list"
  m_servers :: "HttpServer list"
  m_listeningThread :: "EventLoopThread option"
  m_beforeListenSetSockOptCallback :: "sockopt_callback option"
  m_afterAcceptSetSockOptCallback :: "sockopt_callback option"
  m_connectionCallback :: "connection_callback option"

text \<open>
  What \<^verbatim>\<open>ListenerManager.cc\<close> takes from its surroundings: the platform macro
  \<^verbatim>\<open>__linux__\<close>, \<^verbatim>\<open>utils::supportsTls()\<close>, \<^verbatim>\<open>app().reusePort()\<close>, the loop of
  \<^verbatim>\<open>HttpAppFrameworkImpl::instance()\<close>, the loop a new \<^verbatim>\<open>EventLoopThread\<close> owns, whether
  \<^verbatim>\<open>assert\<close> is compiled in and whether the caller runs in a given loop's thread. The
  library calls whose code is not part of the repository are parameters as well:
  \<open>inet_pton v6 ip\<close> says whether the literal parses in the chosen family, and
  \<open>bindSucceeds a\<close> whether the throwaway \<^verbatim>\<open>TcpServer\<close> can bind \<open>a\<close>.
\<close>

record Platform =
  linux :: bool
  supportsTls :: bool
  reusePort :: bool
  mainLoop :: EventLoop
  newThreadLoop :: EventLoop
  assertEnabled :: bool
  isInLoopThread :: "EventLoop \<Rightarrow> bool"
  inet_pton :: "bool \<Rightarrow> string \<Rightarrow> bool"
  bindSucceeds :: "InetAddress \<Rightarrow> bool"

text \<open>The effects of the code on the world outside the manager, in the order they happen.\<close>

datatype event =
    LogTrace nat
  | LogError string
  | LogFatal string
  | Stderr string
  | OpenLockFile string
  | FlockExclusive
  | CloseLockFile
  | ProbeBind EventLoop InetAddress string
  | ProbeDestroyed
  | HttpServerCreated EventLoop InetAddress string
  | ThreadRun EventLoopThread
  | ServerStart HttpServer
  | ServerStop HttpServer
  | ServerReloadSSL HttpServer
  | AssertionFailed
  | LoopQuit EventLoop
  | ThreadWait EventLoopThread

text \<open>
  How a call ends: it returns, or it ends the process (\<^verbatim>\<open>abort()\<close>, \<^verbatim>\<open>exit(n)\<close>, or the
  failed bind of the probe). Both carry the manager and the trace as they are at that
  moment.
\<close>

datatype process_end = Aborted | Exited int | BindFailed

datatype outcome =
    Returned ListenerManager "event list"
  | Terminated process_end ListenerManager "event list"

section \<open>Operations\<close>

text \<open>
  Modelled from the spec: the constructor \<^verbatim>\<open>InetAddress(ip, port, ipv6)\<close> is trantor's. It
  parses the literal in the family it is told, and an address that ``fails to parse to a
  concrete numeric address'' stays unspecified.
\<close>

definition newInetAddress :: "Platform \<Rightarrow> string \<Rightarrow> 16 word \<Rightarrow> bool \<Rightarrow> InetAddress" where
  "newInetAddress env ip port ipv6 =
     \<lparr>addrIp = ip, addrPort = port, isIpV6 = ipv6, isUnspecified = (\<not> inet_pton env ipv6 ip)\<rparr>"

text \<open>\<^verbatim>\<open>std::make_shared<HttpServer>(loop, address, name)\<close>: nothing else is set yet.\<close>

definition newHttpServer :: "EventLoop \<Rightarrow> InetAddress \<Rightarrow> string \<Rightarrow> HttpServer" where
  "newHttpServer loop a name =
     \<lparr>serverLoop = loop, serverAddress = a, serverName = name,
      beforeListenSockOptCallback = None, afterAcceptSockOptCallback = None,
      connectionCallback = None, sslPolicy = None, ioLoops = []\<rparr>"

definition newListenerManager :: ListenerManager where
  "newListenerManager =
     \<lparr>m_listeners = [], m_servers = [], m_listeningThread = None,
      m_beforeListenSetSockOptCallback = None, m_afterAcceptSetSockOptCallback = None,
      m_connectionCallback = None\<rparr>"

definition setBeforeListenSockOptCallback ::
  "sockopt_callback option \<Rightarrow> ListenerManager \<Rightarrow> ListenerManager" where
  "setBeforeListenSockOptCallback cb m = m\<lparr>m_beforeListenSetSockOptCallback := cb\<rparr>"

definition setAfterAcceptSockOptCallback ::
  "sockopt_callback option \<Rightarrow> ListenerManager \<Rightarrow> ListenerManager" where
  "setAfterAcceptSockOptCallback cb m = m\<lparr>m_afterAcceptSetSockOptCallback := cb\<rparr>"

definition setConnectionCallback ::
  "connection_callback option \<Rightarrow> ListenerManager \<Rightarrow> ListenerManager" where
  "setConnectionCallback cb m = m\<lparr>m_connectionCallback := cb\<rparr>"

definition addListener ::
  "Platform \<Rightarrow> string \<Rightarrow> 16 word \<Rightarrow> bool \<Rightarrow> string \<Rightarrow> string \<Rightarrow> bool \<Rightarrow> conf_cmds \<Rightarrow>
   ListenerManager \<Rightarrow> event list \<Rightarrow> outcome" where
  "addListener env ip port useSSL certFile keyFile useOldTLS sslConfCmds m tr =
     (let tr = (if useSSL \<and> \<not> supportsTls env
                then tr @ [LogError ''Can't use SSL without OpenSSL found in your system'']
                else tr)
      in Returned
           (m\<lparr>m_listeners := m_listeners m @
                 [\<lparr>m_ip = ip, m_port = port, m_useSSL = useSSL, m_certFile = certFile,
                   m_keyFile = keyFile, m_useOldTLS = useOldTLS, m_sslConfCmds = sslConfCmds\<rparr>]\<rparr>)
           tr)"

definition getListeners :: "ListenerManager \<Rightarrow> InetAddress list" where
  "getListeners m = map serverAddress (m_servers m)"

subsection \<open>\<^verbatim>\<open>createListeners\<close>, the branch under \<^verbatim>\<open>#ifdef __linux__\<close>\<close>

text \<open>
  \<^verbatim>\<open>DrogonFileLocker\<close>: the constructor opens the lock file and asks for the exclusive
  lock, and checks neither result; the destructor closes the descriptor, which gives the
  lock back.
\<close>

definition DrogonFileLocker_ctor :: "event list \<Rightarrow> event list" where
  "DrogonFileLocker_ctor tr = tr @ [OpenLockFile ''/tmp/drogon.lock'', FlockExclusive]"

definition DrogonFileLocker_dtor :: "event list \<Rightarrow> event list" where
  "DrogonFileLocker_dtor tr = tr @ [CloseLockFile]"

text \<open>
  Modelled from the spec: the constructor of the throwaway \<^verbatim>\<open>TcpServer\<close> of the bind
  probe is trantor's. It binds the address, and ``if the bind fails the process must
  treat the address as already in use and abort topology construction (fatal)''.
  \<open>Inl\<close> is the trace at which the process ends, \<open>Inr\<close> the trace once the server
  stands.
\<close>

definition portTestServer ::
  "Platform \<Rightarrow> InetAddress \<Rightarrow> event list \<Rightarrow> event list + event list" where
  "portTestServer env listenAddress tr =
     (let tr = tr @ [ProbeBind (mainLoop env) listenAddress ''drogonPortTest'']
      in if bindSucceeds env listenAddress then Inr tr else Inl tr)"

text \<open>
  The block under \<^verbatim>\<open>if (i == 0 && !app().reusePort())\<close>: the lock, then the throwaway
  server; at the end of the block the server is destroyed first and the lock after it.
\<close>

definition portTest :: "Platform \<Rightarrow> InetAddress \<Rightarrow> event list \<Rightarrow> event list + event list" where
  "portTest env listenAddress tr =
     (let tr = DrogonFileLocker_ctor tr
      in case portTestServer env listenAddress tr of
           Inl tr \<Rightarrow> Inl tr
         | Inr tr \<Rightarrow>
             let tr = tr @ [ProbeDestroyed]
             in Inr (DrogonFileLocker_dtor tr))"

text \<open>
  The body of the inner loop, for worker loop number \<open>i\<close> (which is \<open>loop\<close>) and one
  declared listener. The constructor of \<^verbatim>\<open>HttpServer\<close> is taken to succeed.
\<close>

definition createOnLoop ::
  "Platform \<Rightarrow> string \<Rightarrow> string \<Rightarrow> conf_cmds \<Rightarrow> nat \<Rightarrow> EventLoop \<Rightarrow> ListenerInfo \<Rightarrow>
   ListenerManager \<Rightarrow> event list \<Rightarrow> outcome" where
  "createOnLoop env globalCertFile globalKeyFile sslConfCmds i loop listener m tr =
     (let ip = m_ip listener;
          isIpv6 = (CHR '':'' \<in> set ip);
          listenAddress = newInetAddress env ip (m_port listener) isIpv6
      in if isUnspecified listenAddress
         then Terminated Aborted m (tr @ [LogFatal ip])
         else
           case (if i = 0 \<and> \<not> reusePort env then portTest env listenAddress tr else Inr tr) of
             Inl tr \<Rightarrow> Terminated BindFailed m tr
           | Inr tr \<Rightarrow>
               let serverPtr = newHttpServer loop listenAddress ''drogon'';
                   tr = tr @ [HttpServerCreated loop listenAddress ''drogon''];
                   serverPtr = (case m_beforeListenSetSockOptCallback m of
                                  Some cb \<Rightarrow> serverPtr\<lparr>beforeListenSockOptCallback := Some cb\<rparr>
                                | None \<Rightarrow> serverPtr);
                   serverPtr = (case m_afterAcceptSetSockOptCallback m of
                                  Some cb \<Rightarrow> serverPtr\<lparr>afterAcceptSockOptCallback := Some cb\<rparr>
                                | None \<Rightarrow> serverPtr);
                   serverPtr = (case m_connectionCallback m of
                                  Some cb \<Rightarrow> serverPtr\<lparr>connectionCallback := Some cb\<rparr>
                                | None \<Rightarrow> serverPtr)
               in if m_useSSL listener \<and> supportsTls env
                  then
                    let cert = m_certFile listener;
                        key = m_keyFile listener;
                        cert = (if cert = [] then globalCertFile else cert);
                        key = (if key = [] then globalKeyFile else key)
                    in if cert = [] \<or> key = []
                       then Terminated (Exited 1) m
                              (tr @ [Stderr ''You can't use https without cert file or key file''])
                       else
                         let cmds = sslConfCmds @ m_sslConfCmds listener;
                             policy = \<lparr>certPath = cert, keyPath = key, confCmds = cmds,
                                       policyUseOldTLS = m_useOldTLS listener\<rparr>;
                             serverPtr = serverPtr\<lparr>sslPolicy := Some policy\<rparr>
                         in Returned (m\<lparr>m_servers := m_servers m @ [serverPtr]\<rparr>) tr
                  else Returned (m\<lparr>m_servers := m_servers m @ [serverPtr]\<rparr>) tr)"

text \<open>\<^verbatim>\<open>for (auto const &listener : listeners_)\<close> inside the loop over the worker loops.\<close>

fun forListeners ::
  "Platform \<Rightarrow> string \<Rightarrow> string \<Rightarrow> conf_cmds \<Rightarrow> nat \<Rightarrow> EventLoop \<Rightarrow> ListenerInfo list \<Rightarrow>
   ListenerManager \<Rightarrow> event list \<Rightarrow> outcome" where
  "forListeners env gc gk cmds i loop [] m tr = Returned m tr"
| "forListeners env gc gk cmds i loop (listener # rest) m tr =
     (case createOnLoop env gc gk cmds i loop listener m tr of
        Terminated k m' tr' \<Rightarrow> Terminated k m' tr'
      | Returned m' tr' \<Rightarrow> forListeners env gc gk cmds i loop rest m' tr')"

text \<open>
  \<^verbatim>\<open>for (size_t i = 0; i < ioLoops.size(); ++i)\<close>: the loops that remain, with the index
  of the first of them.
\<close>

fun forLoops ::
  "Platform \<Rightarrow> string \<Rightarrow> string \<Rightarrow> conf_cmds \<Rightarrow> nat \<Rightarrow> EventLoop list \<Rightarrow>
   ListenerManager \<Rightarrow> event list \<Rightarrow> outcome" where
  "forLoops env gc gk cmds i [] m tr = Returned m tr"
| "forLoops env gc gk cmds i (loop # rest) m tr =
     (case forListeners env gc gk cmds i loop (m_listeners m) m tr of
        Terminated k m' tr' \<Rightarrow> Terminated k m' tr'
      | Returned m' tr' \<Rightarrow> forLoops env gc gk cmds (Suc i) rest m' tr')"

subsection \<open>\<^verbatim>\<open>createListeners\<close>, the branch under \<^verbatim>\<open>#else\<close>\<close>

text \<open>
  The body of the loop over the declared listeners: the server lives on the loop of the
  listening thread and is given all the worker loops.
\<close>

definition createOnThread ::
  "Platform \<Rightarrow> string \<Rightarrow> string \<Rightarrow> conf_cmds \<Rightarrow> EventLoop list \<Rightarrow> EventLoop \<Rightarrow> ListenerInfo \<Rightarrow>
   ListenerManager \<Rightarrow> event list \<Rightarrow> outcome" where
  "createOnThread env globalCertFile globalKeyFile sslConfCmds loops threadLoop' listener m tr =
     (let ip = m_ip listener;
          isIpv6 = (CHR '':'' \<in> set ip);
          address = newInetAddress env ip (m_port listener) isIpv6;
          serverPtr = newHttpServer threadLoop' address ''drogon'';
          tr = tr @ [HttpServerCreated threadLoop' address ''drogon'']
      in if m_useSSL listener \<and> supportsTls env
         then
           let cert = m_certFile listener;
               key = m_keyFile listener;
               cert = (if cert = [] then globalCertFile else cert);
               key = (if key = [] then globalKeyFile else key)
           in if cert = [] \<or> key = []
              then Terminated (Exited 1) m
                     (tr @ [Stderr ''You can't use https without cert file or key file''])
              else
                let cmds = sslConfCmds;
                    policy = \<lparr>certPath = cert, keyPath = key, confCmds = cmds,
                              policyUseOldTLS = m_useOldTLS listener\<rparr>;
                    serverPtr = serverPtr\<lparr>sslPolicy := Some policy\<rparr>;
                    serverPtr = serverPtr\<lparr>ioLoops := loops\<rparr>
                in Returned (m\<lparr>m_servers := m_servers m @ [serverPtr]\<rparr>) tr
         else
           let serverPtr = serverPtr\<lparr>ioLoops := loops\<rparr>
           in Returned (m\<lparr>m_servers := m_servers m @ [serverPtr]\<rparr>) tr)"

fun forListenersOnThread ::
  "Platform \<Rightarrow> string \<Rightarrow> string \<Rightarrow> conf_cmds \<Rightarrow> EventLoop list \<Rightarrow> EventLoop \<Rightarrow>
   ListenerInfo list \<Rightarrow> ListenerManager \<Rightarrow> event list \<Rightarrow> outcome" where
  "forListenersOnThread env gc gk cmds loops lp [] m tr = Returned m tr"
| "forListenersOnThread env gc gk cmds loops lp (listener # rest) m tr =
     (case createOnThread env gc gk cmds loops lp listener m tr of
        Terminated k m' tr' \<Rightarrow> Terminated k m' tr'
      | Returned m' tr' \<Rightarrow> forListenersOnThread env gc gk cmds loops lp rest m' tr')"

subsection \<open>\<^verbatim>\<open>createListeners\<close>\<close>

definition createListeners ::
  "Platform \<Rightarrow> string \<Rightarrow> string \<Rightarrow> conf_cmds \<Rightarrow> EventLoop list \<Rightarrow>
   ListenerManager \<Rightarrow> event list \<Rightarrow> outcome" where
  "createListeners env globalCertFile globalKeyFile sslConfCmds loops m tr =
     (let tr = tr @ [LogTrace (length loops)]
      in if linux env
         then forLoops env globalCertFile globalKeyFile sslConfCmds 0 loops m tr
         else if m_listeners m \<noteq> []
         then
           let th = \<lparr>threadName = ''DrogonListeningLoop'', threadLoop = newThreadLoop env\<rparr>;
               m = m\<lparr>m_listeningThread := Some th\<rparr>;
               tr = tr @ [ThreadRun th]
           in forListenersOnThread env globalCertFile globalKeyFile sslConfCmds loops
                (threadLoop th) (m_listeners m) m tr
         else Returned m tr)"

subsection \<open>Lifecycle\<close>

definition startListening :: "ListenerManager \<Rightarrow> event list \<Rightarrow> outcome" where
  "startListening m tr = Returned m (foldl (\<lambda>tr server. tr @ [ServerStart server]) tr (m_servers m))"

text \<open>
  \<^verbatim>\<open>stopListening\<close>: the loop over the servers, then the listening thread if there is
  one. The \<^verbatim>\<open>assert\<close> ends the process when it is compiled in and the caller is the
  thread of the listening loop.
\<close>

definition stopListening :: "Platform \<Rightarrow> ListenerManager \<Rightarrow> event list \<Rightarrow> outcome" where
  "stopListening env m tr =
     (let tr = foldl (\<lambda>tr serverPtr. tr @ [ServerStop serverPtr]) tr (m_servers m)
      in case m_listeningThread m of
           None \<Rightarrow> Returned m tr
         | Some th \<Rightarrow>
             let loop = threadLoop th
             in if assertEnabled env \<and> isInLoopThread env loop
                then Terminated Aborted m (tr @ [AssertionFailed])
                else Returned m (tr @ [LoopQuit loop, ThreadWait th]))"

definition reloadSSLFiles :: "ListenerManager \<Rightarrow> event list \<Rightarrow> outcome" where
  "reloadSSLFiles m tr =
     Returned m (foldl (\<lambda>tr server. tr @ [ServerReloadSSL server]) tr (m_servers m))"

section \<open>Vocabulary of the properties\<close>

text \<open>
  The definitions of this section are not code of the repository. They name what the
  properties talk about: how a call ended, the conditions under which the body of a
  loop goes through, and the server and the events it then leaves behind. The lemmas
  below relate each of them to the functions above.
\<close>

subsection \<open>Outcomes\<close>

fun managerOf :: "outcome \<Rightarrow> ListenerManager" where
  "managerOf (Returned m tr) = m"
| "managerOf (Terminated k m tr) = m"

fun traceOf :: "outcome \<Rightarrow> event list" where
  "traceOf (Returned m tr) = tr"
| "traceOf (Terminated k m tr) = tr"

fun returned :: "outcome \<Rightarrow> bool" where
  "returned (Returned m tr) = True"
| "returned (Terminated k m tr) = False"

fun isThreadRun :: "event \<Rightarrow> bool" where
  "isThreadRun (ThreadRun th) = True"
| "isThreadRun e = False"

subsection \<open>One declared listener\<close>

text \<open>The address both branches build for a listener: IPv6 when the literal has a colon.\<close>

definition listenAddress :: "Platform \<Rightarrow> ListenerInfo \<Rightarrow> InetAddress" where
  "listenAddress env l = newInetAddress env (m_ip l) (m_port l) (CHR '':'' \<in> set (m_ip l))"

definition parseable :: "Platform \<Rightarrow> ListenerInfo \<Rightarrow> bool" where
  "parseable env l = inet_pton env (CHR '':'' \<in> set (m_ip l)) (m_ip l)"

definition effectiveCert :: "string \<Rightarrow> ListenerInfo \<Rightarrow> string" where
  "effectiveCert gc l = (if m_certFile l = [] then gc else m_certFile l)"

definition effectiveKey :: "string \<Rightarrow> ListenerInfo \<Rightarrow> string" where
  "effectiveKey gk l = (if m_keyFile l = [] then gk else m_keyFile l)"

text \<open>The listener asks for TLS and the build has it.\<close>

definition tlsWanted :: "Platform \<Rightarrow> ListenerInfo \<Rightarrow> bool" where
  "tlsWanted env l = (m_useSSL l \<and> supportsTls env)"

text \<open>A listener for which TLS is wanted has a certificate and a key, its own or global.\<close>

definition tlsReady :: "Platform \<Rightarrow> string \<Rightarrow> string \<Rightarrow> ListenerInfo \<Rightarrow> bool" where
  "tlsReady env gc gk l =
     (\<not> tlsWanted env l \<or> (effectiveCert gc l \<noteq> [] \<and> effectiveKey gk l \<noteq> []))"

text \<open>Worker loop \<open>i\<close> probes the port; where it does, the bind of the probe succeeds.\<close>

definition probed :: "Platform \<Rightarrow> nat \<Rightarrow> bool" where
  "probed env i = (i = 0 \<and> \<not> reusePort env)"

definition probeOk :: "Platform \<Rightarrow> nat \<Rightarrow> ListenerInfo \<Rightarrow> bool" where
  "probeOk env i l = (\<not> probed env i \<or> bindSucceeds env (listenAddress env l))"

definition specOk :: "Platform \<Rightarrow> string \<Rightarrow> string \<Rightarrow> nat \<Rightarrow> ListenerInfo \<Rightarrow> bool" where
  "specOk env gc gk i l = (parseable env l \<and> probeOk env i l \<and> tlsReady env gc gk l)"

subsection \<open>What one pass of a loop body leaves behind\<close>

text \<open>The events of a probe up to the bind, and of a whole probe.\<close>

definition probeStart :: "Platform \<Rightarrow> ListenerInfo \<Rightarrow> event list" where
  "probeStart env l =
     [OpenLockFile ''/tmp/drogon.lock'', FlockExclusive,
      ProbeBind (mainLoop env) (listenAddress env l) ''drogonPortTest'']"

definition probeEvents :: "Platform \<Rightarrow> ListenerInfo \<Rightarrow> event list" where
  "probeEvents env l = probeStart env l @ [ProbeDestroyed, CloseLockFile]"

text \<open>The events of worker loop \<open>i\<close> for one listener, up to the construction of its server.\<close>

definition eventsOnLoop :: "Platform \<Rightarrow> nat \<Rightarrow> EventLoop \<Rightarrow> ListenerInfo \<Rightarrow> event list" where
  "eventsOnLoop env i loop l =
     (if probed env i then probeEvents env l else []) @
     [HttpServerCreated loop (listenAddress env l) ''drogon'']"

definition policyOf :: "string \<Rightarrow> string \<Rightarrow> conf_cmds \<Rightarrow> ListenerInfo \<Rightarrow> TLSPolicy" where
  "policyOf gc gk cmds l =
     \<lparr>certPath = effectiveCert gc l, keyPath = effectiveKey gk l, confCmds = cmds,
      policyUseOldTLS = m_useOldTLS l\<rparr>"

text \<open>The server the Linux branch registers for a listener on a worker loop.\<close>

definition instanceOnLoop ::
  "Platform \<Rightarrow> string \<Rightarrow> string \<Rightarrow> conf_cmds \<Rightarrow> ListenerManager \<Rightarrow> EventLoop \<Rightarrow> ListenerInfo \<Rightarrow>
   HttpServer" where
  "instanceOnLoop env gc gk cmds m loop l =
     \<lparr>serverLoop = loop, serverAddress = listenAddress env l, serverName = ''drogon'',
      beforeListenSockOptCallback = m_beforeListenSetSockOptCallback m,
      afterAcceptSockOptCallback = m_afterAcceptSetSockOptCallback m,
      connectionCallback = m_connectionCallback m,
      sslPolicy = (if tlsWanted env l then Some (policyOf gc gk (cmds @ m_sslConfCmds l) l) else None),
      ioLoops = []\<rparr>"

text \<open>The server the other branch registers for a listener on the loop of the thread.\<close>

definition instanceOnThread ::
  "Platform \<Rightarrow> string \<Rightarrow> string \<Rightarrow> conf_cmds \<Rightarrow> EventLoop list \<Rightarrow> EventLoop \<Rightarrow> ListenerInfo \<Rightarrow>
   HttpServer" where
  "instanceOnThread env gc gk cmds loops lp l =
     \<lparr>serverLoop = lp, serverAddress = listenAddress env l, serverName = ''drogon'',
      beforeListenSockOptCallback = None, afterAcceptSockOptCallback = None,
      connectionCallback = None,
      sslPolicy = (if tlsWanted env l then Some (policyOf gc gk cmds l) else None),
      ioLoops = loops\<rparr>"

subsection \<open>Whole topologies\<close>

definition topologyOnLoops ::
  "Platform \<Rightarrow> string \<Rightarrow> string \<Rightarrow> conf_cmds \<Rightarrow> ListenerManager \<Rightarrow> EventLoop list \<Rightarrow>
   HttpServer list" where
  "topologyOnLoops env gc gk cmds m loops =
     concat (map (\<lambda>loop. map (instanceOnLoop env gc gk cmds m loop) (m_listeners m)) loops)"

definition listeningThread :: "Platform \<Rightarrow> EventLoopThread" where
  "listeningThread env = \<lparr>threadName = ''DrogonListeningLoop'', threadLoop = newThreadLoop env\<rparr>"

definition topologyOnThread ::
  "Platform \<Rightarrow> string \<Rightarrow> string \<Rightarrow> conf_cmds \<Rightarrow> ListenerManager \<Rightarrow> EventLoop list \<Rightarrow>
   HttpServer list" where
  "topologyOnThread env gc gk cmds m loops =
     map (instanceOnThread env gc gk cmds loops (newThreadLoop env)) (m_listeners m)"

definition loopEvents ::
  "Platform \<Rightarrow> ListenerInfo list \<Rightarrow> nat \<times> EventLoop \<Rightarrow> event list" where
  "loopEvents env ls p = concat (map (eventsOnLoop env (fst p) (snd p)) ls)"

text \<open>
  The (index, loop, listener) triples in the order the Linux branch visits them: all the
  listeners for loop 0, then all of them for loop 1, and so on.
\<close>

definition loopSpecPairs ::
  "EventLoop list \<Rightarrow> ListenerInfo list \<Rightarrow> (nat \<times> EventLoop \<times> ListenerInfo) list" where
  "loopSpecPairs loops ls =
     concat (map (\<lambda>p. map (\<lambda>l. (fst p, snd p, l)) ls) (zip [0 ..< length loops] loops))"

definition pairEvents :: "Platform \<Rightarrow> nat \<times> EventLoop \<times> ListenerInfo \<Rightarrow> event list" where
  "pairEvents env p = eventsOnLoop env (fst p) (fst (snd p)) (snd (snd p))"

section \<open>Example inputs\<close>

text \<open>
  A Linux build with TLS whose application has port sharing switched off, and the same
  machine without \<^verbatim>\<open>__linux__\<close>. Three literals parse: two of IPv4 and one of IPv6.
\<close>

definition exLinux :: Platform where
  "exLinux =
     \<lparr>linux = True, supportsTls = True, reusePort = False, mainLoop = 0, newThreadLoop = 9,
      assertEnabled = True, isInLoopThread = (\<lambda>loop. False),
      inet_pton = (\<lambda>ipv6 ip. if ipv6 then ip = ''::1'' else ip = ''127.0.0.1'' \<or> ip = ''0.0.0.0''),
      bindSucceeds = (\<lambda>a. True)\<rparr>"

definition exOther :: Platform where
  "exOther = exLinux\<lparr>linux := False\<rparr>"

text \<open>
  Four declared listeners: plain HTTP; HTTPS with a certificate of its own, a key to
  inherit and one directive of its own; HTTPS with nothing of its own; and a literal
  that is no address.
\<close>

definition specHttp :: ListenerInfo where
  "specHttp =
     \<lparr>m_ip = ''127.0.0.1'', m_port = 80, m_useSSL = False, m_certFile = [], m_keyFile = [],
      m_useOldTLS = False, m_sslConfCmds = []\<rparr>"

definition specHttps :: ListenerInfo where
  "specHttps =
     \<lparr>m_ip = ''::1'', m_port = 443, m_useSSL = True, m_certFile = ''own.crt'', m_keyFile = [],
      m_useOldTLS = False, m_sslConfCmds = [(''Ciphersuites'', ''TLS_AES_256_GCM_SHA384'')]\<rparr>"

definition specHttpsBare :: ListenerInfo where
  "specHttpsBare =
     \<lparr>m_ip = ''0.0.0.0'', m_port = 8443, m_useSSL = True, m_certFile = [], m_keyFile = [],
      m_useOldTLS = False, m_sslConfCmds = []\<rparr>"

definition specNotAnIp :: ListenerInfo where
  "specNotAnIp =
     \<lparr>m_ip = ''not-an-ip'', m_port = 80, m_useSSL = False, m_certFile = [], m_keyFile = [],
      m_useOldTLS = False, m_sslConfCmds = []\<rparr>"

text \<open>A fresh manager that holds the given listeners, and one with the three callbacks set.\<close>

definition managerWith :: "ListenerInfo list \<Rightarrow> ListenerManager" where
  "managerWith ls = newListenerManager\<lparr>m_listeners := ls\<rparr>"

definition exCallbacks :: ListenerManager where
  "exCallbacks =
     setConnectionCallback (Some (ConnectionCallback 3))
       (setAfterAcceptSockOptCallback (Some (SockOptCallback 2))
          (setBeforeListenSockOptCallback (Some (SockOptCallback 1)) (managerWith [specHttp])))"

text \<open>The manager after \<^verbatim>\<open>createListeners\<close> off Linux, with two listeners and two worker loops.\<close>

definition exRunning :: ListenerManager where
  "exRunning = managerOf (createListeners exOther [] [] [] [1, 2] (managerWith [specHttp, specHttp]) [])"

section \<open>Lemmas\<close>

subsection \<open>One pass of the loop body on Linux\<close>

lemma createOnLoop_ok:
  assumes "specOk env gc gk i l"
  shows "createOnLoop env gc gk cmds i loop l m tr =
           Returned (m\<lparr>m_servers := m_servers m @ [instanceOnLoop env gc gk cmds m loop l]\<rparr>)
                    (tr @ eventsOnLoop env i loop l)"
  using assms
  by (auto simp: createOnLoop_def portTest_def portTestServer_def DrogonFileLocker_ctor_def
      DrogonFileLocker_dtor_def specOk_def parseable_def probeOk_def tlsReady_def tlsWanted_def
      probed_def listenAddress_def newInetAddress_def newHttpServer_def Let_def
      instanceOnLoop_def eventsOnLoop_def probeEvents_def probeStart_def policyOf_def effectiveCert_def
      effectiveKey_def split: option.splits)

lemma createOnLoop_unparseable:
  assumes "\<not> parseable env l"
  shows "createOnLoop env gc gk cmds i loop l m tr = Terminated Aborted m (tr @ [LogFatal (m_ip l)])"
  using assms by (simp add: createOnLoop_def parseable_def newInetAddress_def Let_def)

lemma createOnLoop_bind_failed:
  assumes "parseable env l" and "\<not> probeOk env i l"
  shows "createOnLoop env gc gk cmds i loop l m tr =
           Terminated BindFailed m (tr @ probeStart env l)"
  using assms
  by (simp add: createOnLoop_def portTest_def portTestServer_def DrogonFileLocker_ctor_def
      DrogonFileLocker_dtor_def parseable_def probeOk_def probed_def listenAddress_def
      newInetAddress_def probeEvents_def probeStart_def Let_def)

lemma createOnLoop_no_material:
  assumes "parseable env l" and "probeOk env i l" and "\<not> tlsReady env gc gk l"
  shows "createOnLoop env gc gk cmds i loop l m tr =
           Terminated (Exited 1) m
             (tr @ eventsOnLoop env i loop l @
              [Stderr ''You can't use https without cert file or key file''])"
  using assms
  by (auto simp: createOnLoop_def portTest_def portTestServer_def DrogonFileLocker_ctor_def
      DrogonFileLocker_dtor_def parseable_def probeOk_def tlsReady_def tlsWanted_def
      probed_def listenAddress_def newInetAddress_def Let_def eventsOnLoop_def probeEvents_def probeStart_def
      effectiveCert_def effectiveKey_def)

subsection \<open>The loops on Linux\<close>

lemma instanceOnLoop_servers_update [simp]:
  "instanceOnLoop env gc gk cmds (m\<lparr>m_servers := ss\<rparr>) = instanceOnLoop env gc gk cmds m"
  by (intro ext) (simp add: instanceOnLoop_def)

lemma forListeners_ok:
  assumes "\<forall>l \<in> set ls. specOk env gc gk i l"
  shows "forListeners env gc gk cmds i loop ls m tr =
           Returned (m\<lparr>m_servers := m_servers m @ map (instanceOnLoop env gc gk cmds m loop) ls\<rparr>)
                    (tr @ concat (map (eventsOnLoop env i loop) ls))"
  using assms
proof (induction ls arbitrary: m tr)
  case Nil
  then show ?case by simp
next
  case (Cons l ls)
  then show ?case by (simp add: createOnLoop_ok)
qed

lemma forListeners_append:
  assumes "\<forall>l \<in> set pre. specOk env gc gk i l"
  shows "forListeners env gc gk cmds i loop (pre @ rest) m tr =
           forListeners env gc gk cmds i loop rest
             (m\<lparr>m_servers := m_servers m @ map (instanceOnLoop env gc gk cmds m loop) pre\<rparr>)
             (tr @ concat (map (eventsOnLoop env i loop) pre))"
  using assms
proof (induction pre arbitrary: m tr)
  case Nil
  then show ?case by simp
next
  case (Cons l pre)
  then show ?case by (simp add: createOnLoop_ok)
qed

lemma createOnLoop_bad:
  assumes "\<not> specOk env gc gk i l"
  shows "\<exists>k tr'. createOnLoop env gc gk cmds i loop l m tr = Terminated k m tr' \<and>
           k \<in> {Aborted, Exited 1, BindFailed}"
proof (cases "parseable env l")
  case False
  then show ?thesis by (simp add: createOnLoop_unparseable)
next
  case p: True
  show ?thesis
  proof (cases "probeOk env i l")
    case False
    with p show ?thesis by (simp add: createOnLoop_bind_failed)
  next
    case True
    with p assms have "\<not> tlsReady env gc gk l" by (simp add: specOk_def)
    with p True show ?thesis by (simp add: createOnLoop_no_material)
  qed
qed

lemma split_first_bad:
  assumes "\<exists>x \<in> set xs. \<not> P x"
  shows "\<exists>pre x post. xs = pre @ x # post \<and> (\<forall>y \<in> set pre. P y) \<and> \<not> P x \<and>
           pre = takeWhile P xs"
proof -
  from assms have ne: "dropWhile P xs \<noteq> []" by (simp add: dropWhile_eq_Nil_conv)
  then obtain x post where d: "dropWhile P xs = x # post" by (cases "dropWhile P xs") auto
  have "xs = takeWhile P xs @ x # post" using d takeWhile_dropWhile_id [of P xs] by simp
  moreover have "\<forall>y \<in> set (takeWhile P xs). P y" by (blast dest: set_takeWhileD)
  moreover have "\<not> P x" using hd_dropWhile [OF ne] d by simp
  ultimately show ?thesis by blast
qed

lemma specOk_later:
  assumes "specOk env gc gk i l"
  shows "specOk env gc gk (Suc j) l"
  using assms by (simp add: specOk_def probeOk_def probed_def)

lemma forLoops_ok:
  assumes "\<forall>l \<in> set (m_listeners m). specOk env gc gk i l"
  shows "forLoops env gc gk cmds i loops m tr =
           Returned
             (m\<lparr>m_servers := m_servers m @
                 concat (map (\<lambda>loop. map (instanceOnLoop env gc gk cmds m loop) (m_listeners m)) loops)\<rparr>)
             (tr @ concat (map (\<lambda>(k, loop). concat (map (eventsOnLoop env k loop) (m_listeners m)))
                            (zip [i ..< i + length loops] loops)))"
  using assms
proof (induction loops arbitrary: i m tr)
  case Nil
  then show ?case by simp
next
  case (Cons loop loops)
  let ?m1 = "m\<lparr>m_servers := m_servers m @ map (instanceOnLoop env gc gk cmds m loop) (m_listeners m)\<rparr>"
  let ?tr1 = "tr @ concat (map (eventsOnLoop env i loop) (m_listeners m))"
  have one: "forListeners env gc gk cmds i loop (m_listeners m) m tr = Returned ?m1 ?tr1"
    using Cons.prems by (rule forListeners_ok)
  have later: "\<forall>l \<in> set (m_listeners ?m1). specOk env gc gk (Suc i) l"
    using Cons.prems by (auto intro: specOk_later)
  have upt: "[i ..< i + length (loop # loops)] = i # [Suc i ..< Suc i + length loops]"
    by (subst upt_rec) simp
  show ?case
    unfolding upt using one Cons.IH [OF later, of ?tr1] by simp
qed

lemma forListeners_first_bad:
  assumes "\<forall>x \<in> set pre. specOk env gc gk i x" and "\<not> specOk env gc gk i l"
  shows "forListeners env gc gk cmds i loop (pre @ l # post) m tr =
           createOnLoop env gc gk cmds i loop l
             (m\<lparr>m_servers := m_servers m @ map (instanceOnLoop env gc gk cmds m loop) pre\<rparr>)
             (tr @ concat (map (eventsOnLoop env i loop) pre))"
proof -
  let ?m1 = "m\<lparr>m_servers := m_servers m @ map (instanceOnLoop env gc gk cmds m loop) pre\<rparr>"
  let ?tr1 = "tr @ concat (map (eventsOnLoop env i loop) pre)"
  obtain k tr' where "createOnLoop env gc gk cmds i loop l ?m1 ?tr1 = Terminated k ?m1 tr'"
    using createOnLoop_bad [OF assms(2)] by blast
  then show ?thesis by (simp add: forListeners_append [OF assms(1)])
qed

lemma concat_uniform_nth:
  assumes "\<forall>xs \<in> set xss. length xs = n" and "i < length xss" and "j < n"
  shows "concat xss ! (i * n + j) = xss ! i ! j"
  using assms
proof (induction xss arbitrary: i)
  case Nil
  then show ?case by simp
next
  case (Cons xs xss)
  show ?case
  proof (cases i)
    case 0
    with Cons.prems show ?thesis by (simp add: nth_append)
  next
    case (Suc i')
    with Cons.prems have "concat xss ! (i' * n + j) = xss ! i' ! j"
      by (intro Cons.IH) auto
    with Suc Cons.prems show ?thesis by (simp add: nth_append add.assoc)
  qed
qed

lemma concat_uniform_length:
  assumes "\<forall>xs \<in> set xss. length xs = n"
  shows "length (concat xss) = length xss * n"
  using assms by (induction xss) auto

subsection \<open>The loop on the listening thread\<close>

lemma createOnThread_ok:
  assumes "tlsReady env gc gk l"
  shows "createOnThread env gc gk cmds loops lp l m tr =
           Returned (m\<lparr>m_servers := m_servers m @ [instanceOnThread env gc gk cmds loops lp l]\<rparr>)
                    (tr @ [HttpServerCreated lp (listenAddress env l) ''drogon''])"
  using assms
  by (auto simp: createOnThread_def tlsReady_def tlsWanted_def listenAddress_def
      newHttpServer_def Let_def instanceOnThread_def policyOf_def effectiveCert_def
      effectiveKey_def)

lemma createOnThread_no_material:
  assumes "\<not> tlsReady env gc gk l"
  shows "createOnThread env gc gk cmds loops lp l m tr =
           Terminated (Exited 1) m
             (tr @ [HttpServerCreated lp (listenAddress env l) ''drogon'',
                    Stderr ''You can't use https without cert file or key file''])"
  using assms
  by (auto simp: createOnThread_def tlsReady_def tlsWanted_def listenAddress_def Let_def
      effectiveCert_def effectiveKey_def)

lemma forListenersOnThread_append:
  assumes "\<forall>l \<in> set pre. tlsReady env gc gk l"
  shows "forListenersOnThread env gc gk cmds loops lp (pre @ rest) m tr =
           forListenersOnThread env gc gk cmds loops lp rest
             (m\<lparr>m_servers := m_servers m @ map (instanceOnThread env gc gk cmds loops lp) pre\<rparr>)
             (tr @ map (\<lambda>l. HttpServerCreated lp (listenAddress env l) ''drogon'') pre)"
  using assms
proof (induction pre arbitrary: m tr)
  case Nil
  then show ?case by simp
next
  case (Cons l pre)
  then show ?case by (simp add: createOnThread_ok)
qed

lemma forListenersOnThread_ok:
  assumes "\<forall>l \<in> set ls. tlsReady env gc gk l"
  shows "forListenersOnThread env gc gk cmds loops lp ls m tr =
           Returned
             (m\<lparr>m_servers := m_servers m @ map (instanceOnThread env gc gk cmds loops lp) ls\<rparr>)
             (tr @ map (\<lambda>l. HttpServerCreated lp (listenAddress env l) ''drogon'') ls)"
  using forListenersOnThread_append [OF assms, of cmds loops lp "[]" m tr] by simp

lemma forListenersOnThread_first_bad:
  assumes "\<forall>x \<in> set pre. tlsReady env gc gk x" and "\<not> tlsReady env gc gk l"
  shows "forListenersOnThread env gc gk cmds loops lp (pre @ l # post) m tr =
           Terminated (Exited 1)
             (m\<lparr>m_servers := m_servers m @ map (instanceOnThread env gc gk cmds loops lp) pre\<rparr>)
             (tr @ map (\<lambda>l. HttpServerCreated lp (listenAddress env l) ''drogon'') (pre @ [l]) @
              [Stderr ''You can't use https without cert file or key file''])"
  by (simp add: forListenersOnThread_append [OF assms(1)] createOnThread_no_material [OF assms(2)])

subsection \<open>How \<^verbatim>\<open>createListeners\<close> ends\<close>

lemma createListeners_linux_empty:
  assumes "linux env"
  shows "createListeners env gc gk cmds [] m tr = Returned m (tr @ [LogTrace 0])"
  using assms by (simp add: createListeners_def)

lemma createListeners_linux_ok:
  assumes "linux env" and "\<forall>l \<in> set (m_listeners m). specOk env gc gk 0 l"
  shows "createListeners env gc gk cmds loops m tr =
           Returned (m\<lparr>m_servers := m_servers m @ topologyOnLoops env gc gk cmds m loops\<rparr>)
             (tr @ LogTrace (length loops) #
              concat (map (loopEvents env (m_listeners m)) (zip [0 ..< length loops] loops)))"
proof -
  have "(\<lambda>(k, loop). concat (map (eventsOnLoop env k loop) (m_listeners m))) =
        loopEvents env (m_listeners m)"
    by (intro ext) (simp add: loopEvents_def split_beta)
  then show ?thesis
    using assms(1) forLoops_ok [OF assms(2), of cmds loops "tr @ [LogTrace (length loops)]"]
    by (simp add: createListeners_def topologyOnLoops_def)
qed

lemma createListeners_linux_bad:
  assumes "linux env" and "m_listeners m = pre @ l # post"
    and "\<forall>x \<in> set pre. specOk env gc gk 0 x" and "\<not> specOk env gc gk 0 l"
  shows "createListeners env gc gk cmds (loop # rest) m tr =
           createOnLoop env gc gk cmds 0 loop l
             (m\<lparr>m_servers := m_servers m @ map (instanceOnLoop env gc gk cmds m loop) pre\<rparr>)
             (tr @ LogTrace (Suc (length rest)) # concat (map (eventsOnLoop env 0 loop) pre))"
proof -
  let ?m1 = "m\<lparr>m_servers := m_servers m @ map (instanceOnLoop env gc gk cmds m loop) pre\<rparr>"
  let ?tr1 = "tr @ LogTrace (Suc (length rest)) # concat (map (eventsOnLoop env 0 loop) pre)"
  obtain k tr' where t: "createOnLoop env gc gk cmds 0 loop l ?m1 ?tr1 = Terminated k ?m1 tr'"
    using createOnLoop_bad [OF assms(4)] by blast
  have "forListeners env gc gk cmds 0 loop (m_listeners m) m (tr @ [LogTrace (Suc (length rest))]) =
        createOnLoop env gc gk cmds 0 loop l ?m1 ?tr1"
    using forListeners_first_bad [OF assms(3,4), of cmds loop post m "tr @ [LogTrace (Suc (length rest))]"]
    by (simp add: assms(2))
  with t assms(1) show ?thesis by (simp add: createListeners_def)
qed

lemma createListeners_other_none:
  assumes "\<not> linux env" and "m_listeners m = []"
  shows "createListeners env gc gk cmds loops m tr = Returned m (tr @ [LogTrace (length loops)])"
  using assms by (simp add: createListeners_def)

lemma createListeners_other_ok:
  assumes "\<not> linux env" and "m_listeners m \<noteq> []"
    and "\<forall>l \<in> set (m_listeners m). tlsReady env gc gk l"
  shows "createListeners env gc gk cmds loops m tr =
           Returned
             (m\<lparr>m_listeningThread := Some (listeningThread env),
                m_servers := m_servers m @ topologyOnThread env gc gk cmds m loops\<rparr>)
             (tr @ [LogTrace (length loops), ThreadRun (listeningThread env)] @
              map (\<lambda>l. HttpServerCreated (newThreadLoop env) (listenAddress env l) ''drogon'')
                (m_listeners m))"
  using assms(1,2)
    forListenersOnThread_ok [of "m_listeners m" env gc gk cmds loops "newThreadLoop env"
      "m\<lparr>m_listeningThread := Some (listeningThread env)\<rparr>"
      "tr @ [LogTrace (length loops), ThreadRun (listeningThread env)]"] assms(3)
  by (simp add: createListeners_def Let_def listeningThread_def topologyOnThread_def)

lemma createListeners_other_bad:
  assumes "\<not> linux env" and "m_listeners m = pre @ l # post"
    and "\<forall>x \<in> set pre. tlsReady env gc gk x" and "\<not> tlsReady env gc gk l"
  shows "createListeners env gc gk cmds loops m tr =
           Terminated (Exited 1)
             (m\<lparr>m_listeningThread := Some (listeningThread env),
                m_servers := m_servers m @
                  map (instanceOnThread env gc gk cmds loops (newThreadLoop env)) pre\<rparr>)
             (tr @ [LogTrace (length loops), ThreadRun (listeningThread env)] @
              map (\<lambda>l. HttpServerCreated (newThreadLoop env) (listenAddress env l) ''drogon'')
                (pre @ [l]) @
              [Stderr ''You can't use https without cert file or key file''])"
  using assms(1,2)
    forListenersOnThread_first_bad [OF assms(3,4), of cmds loops "newThreadLoop env" post
      "m\<lparr>m_listeningThread := Some (listeningThread env)\<rparr>"
      "tr @ [LogTrace (length loops), ThreadRun (listeningThread env)]"]
  by (simp add: createListeners_def Let_def listeningThread_def)

subsection \<open>The servers a call has appended\<close>

lemma topologyOnLoops_length:
  "length (topologyOnLoops env gc gk cmds m loops) = length loops * length (m_listeners m)"
  unfolding topologyOnLoops_def by (rule trans [OF concat_uniform_length]) auto

lemma topologyOnLoops_nth:
  assumes "i < length loops" and "j < length (m_listeners m)"
  shows "topologyOnLoops env gc gk cmds m loops ! (i * length (m_listeners m) + j) =
           instanceOnLoop env gc gk cmds m (loops ! i) (m_listeners m ! j)"
proof -
  let ?xss = "map (\<lambda>loop. map (instanceOnLoop env gc gk cmds m loop) (m_listeners m)) loops"
  have "concat ?xss ! (i * length (m_listeners m) + j) = ?xss ! i ! j"
    using assms by (intro concat_uniform_nth) auto
  with assms show ?thesis by (simp add: topologyOnLoops_def)
qed

lemma filter_isThreadRun_created [simp]:
  "filter isThreadRun (map (\<lambda>l. HttpServerCreated lp (f l) name) ls) = []"
  by (induction ls) auto

lemma linux_servers_prefix:
  assumes "linux env"
  shows "\<exists>n. m_servers (managerOf (createListeners env gc gk cmds loops m tr)) =
           m_servers m @ take n (topologyOnLoops env gc gk cmds m loops)"
proof (cases loops)
  case Nil
  with assms have "m_servers (managerOf (createListeners env gc gk cmds loops m tr)) =
      m_servers m @ take 0 (topologyOnLoops env gc gk cmds m loops)"
    by (simp add: createListeners_linux_empty)
  then show ?thesis by blast
next
  case (Cons loop rest)
  show ?thesis
  proof (cases "\<forall>l \<in> set (m_listeners m). specOk env gc gk 0 l")
    case True
    have "m_servers (managerOf (createListeners env gc gk cmds loops m tr)) =
        m_servers m @ take (length (topologyOnLoops env gc gk cmds m loops))
          (topologyOnLoops env gc gk cmds m loops)"
      by (simp add: createListeners_linux_ok [OF assms True])
    then show ?thesis by blast
  next
    case False
    then obtain pre l post where
      sp: "m_listeners m = pre @ l # post" "\<forall>y \<in> set pre. specOk env gc gk 0 y"
        "\<not> specOk env gc gk 0 l"
      using split_first_bad [of "m_listeners m" "specOk env gc gk 0"] by blast
    let ?m1 = "m\<lparr>m_servers := m_servers m @ map (instanceOnLoop env gc gk cmds m loop) pre\<rparr>"
    obtain k tr' where
      "createListeners env gc gk cmds (loop # rest) m tr = Terminated k ?m1 tr'"
      using createOnLoop_bad [OF sp(3), of cmds loop ?m1]
      unfolding createListeners_linux_bad [OF assms sp] by blast
    moreover have "take (length pre) (topologyOnLoops env gc gk cmds m (loop # rest)) =
        map (instanceOnLoop env gc gk cmds m loop) pre"
      by (simp add: topologyOnLoops_def sp(1))
    ultimately have "m_servers (managerOf (createListeners env gc gk cmds loops m tr)) =
        m_servers m @ take (length pre) (topologyOnLoops env gc gk cmds m loops)"
      by (simp add: Cons)
    then show ?thesis by blast
  qed
qed

lemma other_servers_prefix:
  assumes "\<not> linux env"
  shows "\<exists>n. m_servers (managerOf (createListeners env gc gk cmds loops m tr)) =
           m_servers m @ take n (topologyOnThread env gc gk cmds m loops)"
proof (cases "\<forall>l \<in> set (m_listeners m). tlsReady env gc gk l")
  case True
  have "m_servers (managerOf (createListeners env gc gk cmds loops m tr)) =
      m_servers m @ take (length (m_listeners m)) (topologyOnThread env gc gk cmds m loops)"
  proof (cases "m_listeners m = []")
    case e: True
    then show ?thesis by (simp add: createListeners_other_none [OF assms e])
  next
    case ne: False
    then show ?thesis
      by (simp add: createListeners_other_ok [OF assms ne True] topologyOnThread_def)
  qed
  then show ?thesis by blast
next
  case False
  then obtain pre l post where
    sp: "m_listeners m = pre @ l # post" "\<forall>y \<in> set pre. tlsReady env gc gk y"
      "\<not> tlsReady env gc gk l"
    using split_first_bad [of "m_listeners m" "tlsReady env gc gk"] by blast
  have "m_servers (managerOf (createListeners env gc gk cmds loops m tr)) =
      m_servers m @ take (length pre) (topologyOnThread env gc gk cmds m loops)"
    by (simp add: createListeners_other_bad [OF assms sp] topologyOnThread_def sp(1))
  then show ?thesis by blast
qed

lemma topologyOnLoops_nth_flat:
  assumes "k < length (topologyOnLoops env gc gk cmds m loops)"
  shows "topologyOnLoops env gc gk cmds m loops ! k =
           instanceOnLoop env gc gk cmds m (loops ! (k div length (m_listeners m)))
             (m_listeners m ! (k mod length (m_listeners m)))"
proof -
  let ?M = "length (m_listeners m)"
  from assms have k: "k < length loops * ?M" by (simp add: topologyOnLoops_length)
  then have pos: "0 < ?M" by (cases "?M = 0") auto
  from k have i: "k div ?M < length loops"
    by (simp add: less_mult_imp_div_less)
  from pos have j: "k mod ?M < ?M" by simp
  have "topologyOnLoops env gc gk cmds m loops ! (k div ?M * ?M + k mod ?M) =
      instanceOnLoop env gc gk cmds m (loops ! (k div ?M)) (m_listeners m ! (k mod ?M))"
    using i j by (rule topologyOnLoops_nth)
  then show ?thesis by simp
qed

lemma realized_instance:
  assumes "m_servers (managerOf (createListeners env gc gk cmds loops m tr)) = m_servers m @ new"
    and "k < length new"
  shows "if linux env
         then new ! k = instanceOnLoop env gc gk cmds m (loops ! (k div length (m_listeners m)))
                          (m_listeners m ! (k mod length (m_listeners m)))
         else new ! k = instanceOnThread env gc gk cmds loops (newThreadLoop env)
                          (m_listeners m ! (k mod length (m_listeners m)))"
proof (cases "linux env")
  case True
  then obtain n where "new = take n (topologyOnLoops env gc gk cmds m loops)"
    using linux_servers_prefix [of env gc gk cmds loops m tr] assms(1) by auto
  with assms(2) have "new ! k = topologyOnLoops env gc gk cmds m loops ! k"
    and "k < length (topologyOnLoops env gc gk cmds m loops)" by simp_all
  with True show ?thesis by (simp add: topologyOnLoops_nth_flat)
next
  case False
  then obtain n where "new = take n (topologyOnThread env gc gk cmds m loops)"
    using other_servers_prefix [of env gc gk cmds loops m tr] assms(1) by auto
  with assms(2) have "new ! k = topologyOnThread env gc gk cmds m loops ! k"
    and "k < length (m_listeners m)" by (simp_all add: topologyOnThread_def)
  with False show ?thesis by (simp add: topologyOnThread_def)
qed

text \<open>
  The directives and the callbacks of an appended server, branch by branch: the Linux
  branch appends the listener's directives to the global ones and installs the
  callbacks of the manager, the other branch does neither.
\<close>

lemma conf_cmds_on_linux:
  assumes "linux env"
    and "m_servers (managerOf (createListeners env gc gk cmds loops m tr)) = m_servers m @ new"
    and "k < length new" and "sslPolicy (new ! k) = Some p"
  shows "confCmds p = cmds @ m_sslConfCmds (m_listeners m ! (k mod length (m_listeners m)))"
  using realized_instance [OF assms(2,3)] assms(1,4)
  by (auto simp: instanceOnLoop_def policyOf_def split: if_splits)

lemma conf_cmds_off_linux:
  assumes "\<not> linux env"
    and "m_servers (managerOf (createListeners env gc gk cmds loops m tr)) = m_servers m @ new"
    and "k < length new" and "sslPolicy (new ! k) = Some p"
  shows "confCmds p = cmds"
  using realized_instance [OF assms(2,3)] assms(1,4)
  by (auto simp: instanceOnThread_def policyOf_def split: if_splits)

lemma callbacks_on_linux:
  assumes "linux env"
    and "m_servers (managerOf (createListeners env gc gk cmds loops m tr)) = m_servers m @ new"
    and "k < length new"
  shows "beforeListenSockOptCallback (new ! k) = m_beforeListenSetSockOptCallback m \<and>
         afterAcceptSockOptCallback (new ! k) = m_afterAcceptSetSockOptCallback m \<and>
         connectionCallback (new ! k) = m_connectionCallback m"
  using realized_instance [OF assms(2,3)] assms(1) by (simp add: instanceOnLoop_def)

lemma callbacks_off_linux:
  assumes "\<not> linux env"
    and "m_servers (managerOf (createListeners env gc gk cmds loops m tr)) = m_servers m @ new"
    and "k < length new"
  shows "beforeListenSockOptCallback (new ! k) = None \<and>
         afterAcceptSockOptCallback (new ! k) = None \<and>
         connectionCallback (new ! k) = None"
  using realized_instance [OF assms(2,3)] assms(1) by (simp add: instanceOnThread_def)

lemma linux_first_fatal:
  assumes "linux env" and "loops \<noteq> []" and "\<exists>x \<in> set (m_listeners m). \<not> specOk env gc gk 0 x"
  shows "\<exists>pre x post loop rest.
           loops = loop # rest \<and> m_listeners m = pre @ x # post \<and>
           (\<forall>y \<in> set pre. specOk env gc gk 0 y) \<and> \<not> specOk env gc gk 0 x \<and>
           createListeners env gc gk cmds loops m tr =
             createOnLoop env gc gk cmds 0 loop x
               (m\<lparr>m_servers := m_servers m @ map (instanceOnLoop env gc gk cmds m loop) pre\<rparr>)
               (tr @ LogTrace (length loops) # concat (map (eventsOnLoop env 0 loop) pre))"
proof -
  from assms(2) obtain loop rest where l: "loops = loop # rest" by (cases loops) auto
  from assms(3) obtain pre x post where
    sp: "m_listeners m = pre @ x # post" "\<forall>y \<in> set pre. specOk env gc gk 0 y"
      "\<not> specOk env gc gk 0 x"
    using split_first_bad [of "m_listeners m" "specOk env gc gk 0"] by blast
  have "createListeners env gc gk cmds loops m tr =
      createOnLoop env gc gk cmds 0 loop x
        (m\<lparr>m_servers := m_servers m @ map (instanceOnLoop env gc gk cmds m loop) pre\<rparr>)
        (tr @ LogTrace (length loops) # concat (map (eventsOnLoop env 0 loop) pre))"
    using createListeners_linux_bad [OF assms(1) sp, of cmds loop rest tr] by (simp add: l)
  with l sp show ?thesis by blast
qed

lemma createListeners_linux_returned_iff:
  assumes "linux env"
  shows "returned (createListeners env gc gk cmds loops m tr) \<longleftrightarrow>
           loops = [] \<or> (\<forall>l \<in> set (m_listeners m). specOk env gc gk 0 l)"
proof (cases "loops = [] \<or> (\<forall>l \<in> set (m_listeners m). specOk env gc gk 0 l)")
  case True
  then show ?thesis
    using assms by (auto simp: createListeners_linux_empty createListeners_linux_ok)
next
  case False
  then have ne: "loops \<noteq> []" and bad: "\<exists>x \<in> set (m_listeners m). \<not> specOk env gc gk 0 x"
    by auto
  from linux_first_fatal [OF assms ne bad, of cmds tr]
  obtain pre x loop where
    x: "\<not> specOk env gc gk 0 x" and
    run: "createListeners env gc gk cmds loops m tr =
      createOnLoop env gc gk cmds 0 loop x
        (m\<lparr>m_servers := m_servers m @ map (instanceOnLoop env gc gk cmds m loop) pre\<rparr>)
        (tr @ LogTrace (length loops) # concat (map (eventsOnLoop env 0 loop) pre))"
    by blast
  from createOnLoop_bad [OF x] obtain k m' tr' where
    "createListeners env gc gk cmds loops m tr = Terminated k m' tr'"
    unfolding run by blast
  then have "\<not> returned (createListeners env gc gk cmds loops m tr)" by simp
  with False show ?thesis by simp
qed

lemma createListeners_other_returned_iff:
  assumes "\<not> linux env"
  shows "returned (createListeners env gc gk cmds loops m tr) \<longleftrightarrow>
           (\<forall>l \<in> set (m_listeners m). tlsReady env gc gk l)"
proof (cases "\<forall>l \<in> set (m_listeners m). tlsReady env gc gk l")
  case True
  then show ?thesis
    using assms
    by (cases "m_listeners m = []")
      (simp_all add: createListeners_other_none createListeners_other_ok)
next
  case False
  then obtain pre x post where
    "m_listeners m = pre @ x # post" "\<forall>y \<in> set pre. tlsReady env gc gk y"
    "\<not> tlsReady env gc gk x"
    using split_first_bad [of "m_listeners m" "tlsReady env gc gk"] by blast
  from createListeners_other_bad [OF assms this, of cmds loops tr] False
  show ?thesis by simp
qed

text \<open>
  Which servers exist: a listener that is reached, everything before it and itself being
  in order, has its server on the first loop, however the call ends; when all the
  listeners are in order the call returns with every server; and a listener for which
  TLS is wanted without certificate or key keeps the call from returning.
\<close>

lemma nth_in_take:
  assumes "i < n" and "i < length xs"
  shows "xs ! i \<in> set (take n xs)"
  using assms by (auto simp: in_set_conv_nth intro!: exI [of _ i])

lemma first_bad_after:
  assumes "xs = pre @ x # post" and "\<forall>y \<in> set (take (Suc j) xs). P y" and "\<not> P x"
  shows "j < length pre"
proof (rule ccontr)
  assume "\<not> j < length pre"
  then have "length pre < Suc j" by simp
  moreover have "length pre < length xs" by (simp add: assms(1))
  ultimately have "xs ! length pre \<in> set (take (Suc j) xs)" by (rule nth_in_take)
  moreover have "xs ! length pre = x" by (simp add: assms(1))
  ultimately show False using assms(2,3) by auto
qed

lemma linux_fatal_servers:
  assumes "linux env" and "loops \<noteq> []" and "\<exists>x \<in> set (m_listeners m). \<not> specOk env gc gk 0 x"
  shows "\<exists>pre x post.
           m_listeners m = pre @ x # post \<and> (\<forall>y \<in> set pre. specOk env gc gk 0 y) \<and>
           \<not> specOk env gc gk 0 x \<and>
           m_servers (managerOf (createListeners env gc gk cmds loops m tr)) =
             m_servers m @ map (instanceOnLoop env gc gk cmds m (hd loops)) pre"
proof -
  from linux_first_fatal [OF assms, of cmds tr]
  obtain pre x post loop rest where
    l: "loops = loop # rest" and
    sp: "m_listeners m = pre @ x # post" "\<forall>y \<in> set pre. specOk env gc gk 0 y"
      "\<not> specOk env gc gk 0 x" and
    run: "createListeners env gc gk cmds loops m tr =
      createOnLoop env gc gk cmds 0 loop x
        (m\<lparr>m_servers := m_servers m @ map (instanceOnLoop env gc gk cmds m loop) pre\<rparr>)
        (tr @ LogTrace (length loops) # concat (map (eventsOnLoop env 0 loop) pre))"
    by blast
  let ?m1 = "m\<lparr>m_servers := m_servers m @ map (instanceOnLoop env gc gk cmds m loop) pre\<rparr>"
  from createOnLoop_bad [OF sp(3)] obtain k tr' where
    "createListeners env gc gk cmds loops m tr = Terminated k ?m1 tr'"
    unfolding run by blast
  then have "m_servers (managerOf (createListeners env gc gk cmds loops m tr)) =
      m_servers m @ map (instanceOnLoop env gc gk cmds m (hd loops)) pre"
    by (simp add: l)
  with sp show ?thesis by blast
qed

lemma reached_listener_has_server:
  assumes "j < length (m_listeners m)" and "linux env \<longrightarrow> loops \<noteq> []"
    and "\<forall>x \<in> set (take (Suc j) (m_listeners m)).
           (linux env \<longrightarrow> parseable env x \<and> probeOk env 0 x) \<and> tlsReady env gc gk x"
  shows "\<exists>new. m_servers (managerOf (createListeners env gc gk cmds loops m tr)) = m_servers m @ new \<and>
           j < length new"
proof (cases "linux env")
  case True
  with assms(2) have ne: "loops \<noteq> []" by simp
  from True assms(3) have reach: "\<forall>x \<in> set (take (Suc j) (m_listeners m)). specOk env gc gk 0 x"
    by (simp add: specOk_def)
  show ?thesis
  proof (cases "\<forall>l \<in> set (m_listeners m). specOk env gc gk 0 l")
    case ok: True
    from ne have "Suc 0 \<le> length loops" by (cases loops) simp_all
    then have "Suc 0 * length (m_listeners m) \<le> length loops * length (m_listeners m)"
      by (rule mult_le_mono1)
    then have "length (m_listeners m) \<le> length loops * length (m_listeners m)" by simp
    with assms(1) have "j < length loops * length (m_listeners m)" by (rule less_le_trans)
    then have "j < length (topologyOnLoops env gc gk cmds m loops)"
      by (simp only: topologyOnLoops_length)
    then show ?thesis by (simp add: createListeners_linux_ok [OF True ok])
  next
    case False
    then have "\<exists>x \<in> set (m_listeners m). \<not> specOk env gc gk 0 x" by simp
    from linux_fatal_servers [OF True ne this, of cmds tr]
    obtain pre x post where
      sp: "m_listeners m = pre @ x # post" "\<not> specOk env gc gk 0 x" and
      srv: "m_servers (managerOf (createListeners env gc gk cmds loops m tr)) =
        m_servers m @ map (instanceOnLoop env gc gk cmds m (hd loops)) pre"
      by blast
    from sp(1) reach sp(2) have "j < length pre" by (rule first_bad_after)
    with srv show ?thesis by simp
  qed
next
  case False
  with assms(3) have reach: "\<forall>x \<in> set (take (Suc j) (m_listeners m)). tlsReady env gc gk x"
    by simp
  from assms(1) have ne: "m_listeners m \<noteq> []" by auto
  show ?thesis
  proof (cases "\<forall>l \<in> set (m_listeners m). tlsReady env gc gk l")
    case ok: True
    from assms(1) show ?thesis
      by (simp add: createListeners_other_ok [OF False ne ok] topologyOnThread_def)
  next
    case bad: False
    then obtain pre x post where
      sp: "m_listeners m = pre @ x # post" "\<forall>y \<in> set pre. tlsReady env gc gk y"
        "\<not> tlsReady env gc gk x"
      using split_first_bad [of "m_listeners m" "tlsReady env gc gk"] by blast
    from sp(1) reach sp(3) have "j < length pre" by (rule first_bad_after)
    then show ?thesis by (simp add: createListeners_other_bad [OF False sp])
  qed
qed

lemma all_in_order_returns:
  assumes "\<forall>x \<in> set (m_listeners m).
             (linux env \<longrightarrow> parseable env x \<and> probeOk env 0 x) \<and> tlsReady env gc gk x"
  shows "returned (createListeners env gc gk cmds loops m tr) \<and>
         (\<exists>new. m_servers (managerOf (createListeners env gc gk cmds loops m tr)) = m_servers m @ new \<and>
            length new = (if linux env then length loops else 1) * length (m_listeners m))"
proof (cases "linux env")
  case True
  with assms have ok: "\<forall>l \<in> set (m_listeners m). specOk env gc gk 0 l" by (simp add: specOk_def)
  show ?thesis
    using True by (simp add: createListeners_linux_ok [OF True ok] topologyOnLoops_length)
next
  case False
  with assms have ok: "\<forall>l \<in> set (m_listeners m). tlsReady env gc gk l" by simp
  show ?thesis
  proof (cases "m_listeners m = []")
    case True
    with False show ?thesis by (simp add: createListeners_other_none)
  next
    case ne: False
    with False show ?thesis
      by (simp add: createListeners_other_ok [OF False ne ok] topologyOnThread_def)
  qed
qed

lemma not_ready_not_returned:
  assumes "l \<in> set (m_listeners m)" and "\<not> tlsReady env gc gk l" and "linux env \<longrightarrow> loops \<noteq> []"
  shows "\<not> returned (createListeners env gc gk cmds loops m tr)"
proof (cases "linux env")
  case True
  from assms(1,2) have "\<not> (\<forall>x \<in> set (m_listeners m). specOk env gc gk 0 x)"
    by (auto simp: specOk_def)
  with True assms(3) show ?thesis by (simp add: createListeners_linux_returned_iff)
next
  case False
  with assms(1,2) show ?thesis by (auto simp: createListeners_other_returned_iff)
qed

lemma appended_server_material:
  assumes "supportsTls env"
    and "m_servers (managerOf (createListeners env gc gk cmds loops m tr)) = m_servers m @ new"
    and "k < length new"
    and "l = m_listeners m ! (k mod length (m_listeners m))"
    and "m_useSSL l"
  shows "serverAddress (new ! k) = listenAddress env l \<and>
         (\<exists>p. sslPolicy (new ! k) = Some p \<and>
              certPath p = (if m_certFile l \<noteq> [] then m_certFile l else gc) \<and>
              keyPath p = (if m_keyFile l \<noteq> [] then m_keyFile l else gk))"
  using realized_instance [OF assms(2,3)] assms(1,4,5)
  by (cases "linux env")
    (simp_all add: instanceOnLoop_def instanceOnThread_def tlsWanted_def policyOf_def
      effectiveCert_def effectiveKey_def)

lemma instanceOnLoop_material:
  assumes "tlsReady env gc gk y" and "sslPolicy (instanceOnLoop env gc gk cmds m loop y) = Some p"
  shows "certPath p \<noteq> [] \<and> keyPath p \<noteq> []"
  using assms by (auto simp: instanceOnLoop_def tlsReady_def policyOf_def split: if_splits)

lemma instanceOnThread_material:
  assumes "tlsReady env gc gk y" and "sslPolicy (instanceOnThread env gc gk cmds loops lp y) = Some p"
  shows "certPath p \<noteq> [] \<and> keyPath p \<noteq> []"
  using assms by (auto simp: instanceOnThread_def tlsReady_def policyOf_def split: if_splits)

lemma instanceOnLoop_address:
  assumes "parseable env y"
  shows "\<not> isUnspecified (serverAddress (instanceOnLoop env gc gk cmds m loop y)) \<and>
         isIpV6 (serverAddress (instanceOnLoop env gc gk cmds m loop y)) =
           (CHR '':'' \<in> set (addrIp (serverAddress (instanceOnLoop env gc gk cmds m loop y))))"
  using assms by (simp add: instanceOnLoop_def listenAddress_def newInetAddress_def parseable_def)

subsection \<open>The events of a call on Linux\<close>

lemma pairEvents_row:
  "pairEvents env \<circ> (\<lambda>l. (i, loop, l)) = eventsOnLoop env i loop"
  by (rule ext) (simp add: pairEvents_def)

lemma loopEvents_pairs:
  "concat (map (loopEvents env ls) zs) =
     concat (map (pairEvents env) (concat (map (\<lambda>p. map (\<lambda>l. (fst p, snd p, l)) ls) zs)))"
  by (induction zs) (simp_all add: loopEvents_def pairEvents_row)

lemma loopSpecPairs_length: "length (loopSpecPairs loops ls) = length loops * length ls"
  unfolding loopSpecPairs_def by (rule trans [OF concat_uniform_length [where n = "length ls"]]) auto

lemma loopSpecPairs_first_row:
  assumes "n \<le> length ls"
  shows "take n (loopSpecPairs (loop # rest) ls) = map (\<lambda>l. (0, loop, l)) (take n ls)"
proof -
  have "[0 ..< length (loop # rest)] = 0 # [Suc 0 ..< Suc (length rest)]"
    by (subst upt_rec) simp
  then have "loopSpecPairs (loop # rest) ls =
      map (\<lambda>l. (0, loop, l)) ls @
      concat (map (\<lambda>p. map (\<lambda>l. (fst p, snd p, l)) ls) (zip [Suc 0 ..< Suc (length rest)] rest))"
    by (simp add: loopSpecPairs_def)
  with assms show ?thesis by (simp add: take_map)
qed

subsection \<open>Lifecycle and examples\<close>

lemma foldl_events:
  "foldl (\<lambda>tr x. tr @ [f x]) tr xs = tr @ map f xs"
  by (induction xs arbitrary: tr) simp_all

lemma addListener_managerWith:
  "managerOf (addListener env ip port useSSL certFile keyFile useOldTLS sslConfCmds
                (managerWith ls) tr) =
     managerWith (ls @ [\<lparr>m_ip = ip, m_port = port, m_useSSL = useSSL, m_certFile = certFile,
                          m_keyFile = keyFile, m_useOldTLS = useOldTLS,
                          m_sslConfCmds = sslConfCmds\<rparr>])"
  by (simp add: addListener_def managerWith_def newListenerManager_def Let_def)

lemmas ex_defs = exLinux_def exOther_def specHttp_def specHttps_def specHttpsBare_def
  specNotAnIp_def managerWith_def newListenerManager_def

lemmas run_defs = createListeners_def createOnLoop_def portTest_def portTestServer_def
  DrogonFileLocker_ctor_def DrogonFileLocker_dtor_def createOnThread_def newInetAddress_def
  newHttpServer_def Let_def listenAddress_def

section \<open>The claims\<close>

subsection \<open>One server per worker loop and listener\<close>

text \<open>
  Claim C1, as amended. On Linux, when every declared address parses, every bind probe
  succeeds and every listener for which TLS is wanted has a certificate and a key,
  \<^verbatim>\<open>createListeners\<close> returns, and it has appended exactly \<open>N \<times> M\<close> servers for \<open>N\<close>
  worker loops and \<open>M\<close> listeners: the one at position \<open>i \<times> M + j\<close> runs on worker
  loop \<open>i\<close> and has the address of listener \<open>j\<close>.
\<close>

theorem createListeners_reuseport_topology:
  assumes "linux env"
    and "\<forall>l \<in> set (m_listeners m). parseable env l \<and> probeOk env 0 l \<and> tlsReady env gc gk l"
  shows "\<exists>m' tr' new.
           createListeners env gc gk cmds loops m tr = Returned m' tr' \<and>
           m_servers m' = m_servers m @ new \<and>
           length new = length loops * length (m_listeners m) \<and>
           (\<forall>i < length loops. \<forall>j < length (m_listeners m).
              serverLoop (new ! (i * length (m_listeners m) + j)) = loops ! i \<and>
              serverAddress (new ! (i * length (m_listeners m) + j)) =
                listenAddress env (m_listeners m ! j))"
proof -
  let ?new = "topologyOnLoops env gc gk cmds m loops"
  from assms(2) have ok: "\<forall>l \<in> set (m_listeners m). specOk env gc gk 0 l"
    by (simp add: specOk_def)
  have "createListeners env gc gk cmds loops m tr =
          Returned (m\<lparr>m_servers := m_servers m @ ?new\<rparr>)
            (tr @ LogTrace (length loops) #
             concat (map (loopEvents env (m_listeners m)) (zip [0 ..< length loops] loops)))"
    using assms(1) ok by (rule createListeners_linux_ok)
  moreover have "m_servers (m\<lparr>m_servers := m_servers m @ ?new\<rparr>) = m_servers m @ ?new"
    by simp
  moreover have "length ?new = length loops * length (m_listeners m)"
    by (rule topologyOnLoops_length)
  moreover have "\<forall>i < length loops. \<forall>j < length (m_listeners m).
      serverLoop (?new ! (i * length (m_listeners m) + j)) = loops ! i \<and>
      serverAddress (?new ! (i * length (m_listeners m) + j)) = listenAddress env (m_listeners m ! j)"
    by (simp add: topologyOnLoops_nth instanceOnLoop_def)
  ultimately show ?thesis by blast
qed

text \<open>
  Claim C1 as stated fails. One worker loop and one listener whose address parses, which
  asks for TLS and has neither certificate nor key, with no global ones: the process
  exits with status 1 and the manager holds no server, where the claim counts one. The
  same happens to a plain listener when the bind of the probe fails.
\<close>

theorem createListeners_reuseport_topology_counterexample:
  "linux exLinux \<and> parseable exLinux specHttpsBare \<and>
   createListeners exLinux [] [] [] [1] (managerWith [specHttpsBare]) [] =
     Terminated (Exited 1) (managerWith [specHttpsBare])
       [LogTrace 1, OpenLockFile ''/tmp/drogon.lock'', FlockExclusive,
        ProbeBind 0 (listenAddress exLinux specHttpsBare) ''drogonPortTest'',
        ProbeDestroyed, CloseLockFile,
        HttpServerCreated 1 (listenAddress exLinux specHttpsBare) ''drogon'',
        Stderr ''You can't use https without cert file or key file''] \<and>
   m_servers (managerWith [specHttpsBare]) = [] \<and>
   parseable exLinux specHttp \<and>
   createListeners (exLinux\<lparr>bindSucceeds := (\<lambda>a. False)\<rparr>) [] [] [] [1]
       (managerWith [specHttp]) [] =
     Terminated BindFailed (managerWith [specHttp])
       [LogTrace 1, OpenLockFile ''/tmp/drogon.lock'', FlockExclusive,
        ProbeBind 0 (listenAddress exLinux specHttp) ''drogonPortTest''] \<and>
   m_servers (managerWith [specHttp]) = []"
  by (simp add: ex_defs run_defs parseable_def)

text \<open>
  Claim C1, a run that meets the hypotheses: two worker loops and two listeners, one
  of them with TLS, give four servers, the last on loop 2 for the second listener.
\<close>

theorem createListeners_reuseport_topology_witness:
  "linux exLinux \<and>
   list_all (\<lambda>l. parseable exLinux l \<and> probeOk exLinux 0 l \<and> tlsReady exLinux [] ''global.key'' l)
     [specHttp, specHttps] \<and>
   (\<exists>m' tr' new.
      createListeners exLinux [] ''global.key'' [] [1, 2] (managerWith [specHttp, specHttps]) [] =
        Returned m' tr' \<and>
      m_servers m' = new \<and> length new = 4 \<and>
      serverLoop (new ! 3) = 2 \<and> serverAddress (new ! 3) = listenAddress exLinux specHttps)"
proof -
  let ?m = "managerWith [specHttp, specHttps]"
  have h1: "linux exLinux" by (simp add: exLinux_def)
  have h2: "\<forall>l \<in> set (m_listeners ?m).
      parseable exLinux l \<and> probeOk exLinux 0 l \<and> tlsReady exLinux [] ''global.key'' l"
    by (simp add: ex_defs parseable_def probeOk_def probed_def tlsReady_def tlsWanted_def
        effectiveCert_def effectiveKey_def listenAddress_def)
  from createListeners_reuseport_topology [OF h1 h2, of "[]" "[1, 2]" "[]"]
  obtain m' tr' new where
    r: "createListeners exLinux [] ''global.key'' [] [1, 2] ?m [] = Returned m' tr'" and
    n: "m_servers m' = m_servers ?m @ new" "length new = length [1::nat, 2] * length (m_listeners ?m)" and
    a: "\<forall>i < length [1::nat, 2]. \<forall>j < length (m_listeners ?m).
      serverLoop (new ! (i * length (m_listeners ?m) + j)) = [1, 2] ! i \<and>
      serverAddress (new ! (i * length (m_listeners ?m) + j)) = listenAddress exLinux (m_listeners ?m ! j)"
    by blast
  from n have "m_servers m' = new" "length new = 4"
    by (simp_all add: managerWith_def newListenerManager_def)
  moreover from a [rule_format, of 1 1]
  have "serverLoop (new ! 3) = 2 \<and> serverAddress (new ! 3) = listenAddress exLinux specHttps"
    by (simp add: managerWith_def newListenerManager_def numeral_3_eq_3)
  ultimately show ?thesis using r h1 h2 by (auto simp: managerWith_def newListenerManager_def)
qed

subsection \<open>The dedicated listening thread\<close>

text \<open>
  Claim C2, as amended. Off Linux, however the call ends, \<^verbatim>\<open>createListeners\<close> has run
  exactly one listening thread when a listener is declared and none otherwise, and the
  manager holds that thread exactly when a listener is declared. When every listener
  for which TLS is wanted has a certificate and a key, the call returns and has
  appended one server per listener, in order, each on the loop of the listening thread
  and each given all the worker loops.
\<close>

theorem createListeners_dedicated_thread:
  assumes "\<not> linux env"
  shows "(\<exists>d. traceOf (createListeners env gc gk cmds loops m tr) = tr @ d \<and>
              filter isThreadRun d =
                (if m_listeners m = [] then [] else [ThreadRun (listeningThread env)])) \<and>
         m_listeningThread (managerOf (createListeners env gc gk cmds loops m tr)) =
           (if m_listeners m = [] then m_listeningThread m else Some (listeningThread env)) \<and>
         ((\<forall>l \<in> set (m_listeners m). tlsReady env gc gk l) \<longrightarrow>
          (\<exists>m' tr' new.
             createListeners env gc gk cmds loops m tr = Returned m' tr' \<and>
             m_servers m' = m_servers m @ new \<and>
             length new = length (m_listeners m) \<and>
             (\<forall>j < length (m_listeners m).
                serverLoop (new ! j) = threadLoop (listeningThread env) \<and>
                ioLoops (new ! j) = loops \<and>
                serverAddress (new ! j) = listenAddress env (m_listeners m ! j))))"
proof (cases "m_listeners m = []")
  case True
  with assms show ?thesis by (simp add: createListeners_other_none)
next
  case ne: False
  show ?thesis
  proof (cases "\<forall>l \<in> set (m_listeners m). tlsReady env gc gk l")
    case True
    have new: "\<forall>j < length (m_listeners m).
        serverLoop (topologyOnThread env gc gk cmds m loops ! j) = threadLoop (listeningThread env) \<and>
        ioLoops (topologyOnThread env gc gk cmds m loops ! j) = loops \<and>
        serverAddress (topologyOnThread env gc gk cmds m loops ! j) =
          listenAddress env (m_listeners m ! j)"
      by (simp add: topologyOnThread_def instanceOnThread_def listeningThread_def)
    have len: "length (topologyOnThread env gc gk cmds m loops) = length (m_listeners m)"
      by (simp add: topologyOnThread_def)
    show ?thesis
      using ne new len by (simp add: createListeners_other_ok [OF assms ne True])
  next
    case False
    then obtain pre l post where
      sp: "m_listeners m = pre @ l # post" "\<forall>y \<in> set pre. tlsReady env gc gk y"
        "\<not> tlsReady env gc gk l"
      using split_first_bad [of "m_listeners m" "tlsReady env gc gk"] by blast
    show ?thesis
      using ne False by (simp add: createListeners_other_bad [OF assms sp])
  qed
qed

text \<open>
  Claim C2 as stated fails. Off Linux, one listener that asks for TLS and has neither
  certificate nor key, with no global ones: the thread is started, then the process
  exits with status 1 and the manager holds no server for the declared listener.
\<close>

theorem createListeners_dedicated_thread_counterexample:
  "\<not> linux exOther \<and>
   createListeners exOther [] [] [] [1, 2] (managerWith [specHttpsBare]) [] =
     Terminated (Exited 1)
       ((managerWith [specHttpsBare])\<lparr>m_listeningThread := Some (listeningThread exOther)\<rparr>)
       [LogTrace 2, ThreadRun (listeningThread exOther),
        HttpServerCreated 9 (listenAddress exOther specHttpsBare) ''drogon'',
        Stderr ''You can't use https without cert file or key file''] \<and>
   m_servers ((managerWith [specHttpsBare])\<lparr>m_listeningThread := Some (listeningThread exOther)\<rparr>) = []"
  by (simp add: ex_defs run_defs listeningThread_def)

text \<open>
  Claim C2, a run that meets the hypotheses: two listeners, the second with TLS and the
  global key, and two worker loops.
\<close>

theorem createListeners_dedicated_thread_witness:
  "\<not> linux exOther \<and>
   list_all (tlsReady exOther [] ''global.key'') [specHttp, specHttps] \<and>
   m_listeningThread
     (managerOf (createListeners exOther [] ''global.key'' [] [1, 2] (managerWith [specHttp, specHttps]) [])) =
     Some (listeningThread exOther) \<and>
   (\<exists>m' tr' new.
      createListeners exOther [] ''global.key'' [] [1, 2] (managerWith [specHttp, specHttps]) [] =
        Returned m' tr' \<and>
      m_servers m' = new \<and> length new = 2 \<and>
      serverLoop (new ! 1) = 9 \<and> ioLoops (new ! 1) = [1, 2] \<and>
      serverAddress (new ! 1) = listenAddress exOther specHttps)"
proof -
  let ?m = "managerWith [specHttp, specHttps]"
  let ?r = "createListeners exOther [] ''global.key'' [] [1, 2] ?m []"
  have h1: "\<not> linux exOther" by (simp add: ex_defs)
  have h2: "\<forall>l \<in> set (m_listeners ?m). tlsReady exOther [] ''global.key'' l"
    by (simp add: ex_defs tlsReady_def tlsWanted_def effectiveCert_def effectiveKey_def)
  note t = createListeners_dedicated_thread [OF h1, of "[]" "''global.key''" "[]" "[1, 2]" ?m "[]"]
  from t have th: "m_listeningThread (managerOf ?r) = Some (listeningThread exOther)"
    by (simp add: managerWith_def newListenerManager_def)
  from t h2 obtain m' tr' new where
    r: "?r = Returned m' tr'" and
    n: "m_servers m' = m_servers ?m @ new" "length new = length (m_listeners ?m)" and
    a: "\<forall>j < length (m_listeners ?m).
      serverLoop (new ! j) = threadLoop (listeningThread exOther) \<and> ioLoops (new ! j) = [1, 2] \<and>
      serverAddress (new ! j) = listenAddress exOther (m_listeners ?m ! j)"
    by blast
  from n have "m_servers m' = new" "length new = 2"
    by (simp_all add: managerWith_def newListenerManager_def)
  moreover from a [rule_format, of 1]
  have "serverLoop (new ! 1) = 9 \<and> ioLoops (new ! 1) = [1, 2] \<and>
      serverAddress (new ! 1) = listenAddress exOther specHttps"
    by (simp add: managerWith_def newListenerManager_def listeningThread_def exOther_def exLinux_def)
  ultimately show ?thesis
    using r th h1 h2 by (auto simp: managerWith_def newListenerManager_def)
qed

subsection \<open>Effective certificate and key\<close>

text \<open>
  Claim C3. With TLS available, let listener \<open>j\<close> ask for TLS; its effective certificate
  path is its own when that is non-empty and the global one otherwise, and likewise for
  the key. On either platform: every server appended for listener \<open>j\<close> (the positions
  \<open>k\<close> with \<open>k mod M = j\<close>), however the call ends, carries a TLS policy with exactly
  these two paths; once the listeners up to \<open>j\<close> are in order (and Linux has a worker
  loop), the server at position \<open>j\<close> exists; when all the listeners are in order the
  call returns with all \<open>N \<times> M\<close> servers on Linux and all \<open>M\<close> off Linux; and when
  one of the two effective paths is empty the call does not return.
\<close>

theorem effective_tls_material:
  assumes "supportsTls env"
    and "j < length (m_listeners m)" and "l = m_listeners m ! j" and "m_useSSL l"
  shows "(\<forall>new k.
            m_servers (managerOf (createListeners env gc gk cmds loops m tr)) = m_servers m @ new \<and>
            k < length new \<and> k mod length (m_listeners m) = j \<longrightarrow>
            serverAddress (new ! k) = listenAddress env l \<and>
            (\<exists>p. sslPolicy (new ! k) = Some p \<and>
               certPath p = (if m_certFile l \<noteq> [] then m_certFile l else gc) \<and>
               keyPath p = (if m_keyFile l \<noteq> [] then m_keyFile l else gk))) \<and>
         ((linux env \<longrightarrow> loops \<noteq> []) \<and>
          (\<forall>x \<in> set (take (Suc j) (m_listeners m)).
             (linux env \<longrightarrow> parseable env x \<and> probeOk env 0 x) \<and> tlsReady env gc gk x) \<longrightarrow>
          (\<exists>new. m_servers (managerOf (createListeners env gc gk cmds loops m tr)) = m_servers m @ new \<and>
             j < length new)) \<and>
         ((\<forall>x \<in> set (m_listeners m).
             (linux env \<longrightarrow> parseable env x \<and> probeOk env 0 x) \<and> tlsReady env gc gk x) \<longrightarrow>
          returned (createListeners env gc gk cmds loops m tr) \<and>
          (\<exists>new. m_servers (managerOf (createListeners env gc gk cmds loops m tr)) = m_servers m @ new \<and>
             length new = (if linux env then length loops else 1) * length (m_listeners m))) \<and>
         (((if m_certFile l \<noteq> [] then m_certFile l else gc) = [] \<or>
           (if m_keyFile l \<noteq> [] then m_keyFile l else gk) = []) \<and>
          (linux env \<longrightarrow> loops \<noteq> []) \<longrightarrow>
          \<not> returned (createListeners env gc gk cmds loops m tr))"
proof (intro conjI allI impI)
  fix new k
  assume a: "m_servers (managerOf (createListeners env gc gk cmds loops m tr)) = m_servers m @ new \<and>
    k < length new \<and> k mod length (m_listeners m) = j"
  then have "l = m_listeners m ! (k mod length (m_listeners m))" by (simp add: assms(3))
  with a assms(1,4) appended_server_material [of env gc gk cmds loops m tr new k l]
  show "serverAddress (new ! k) = listenAddress env l"
    and "\<exists>p. sslPolicy (new ! k) = Some p \<and>
       certPath p = (if m_certFile l \<noteq> [] then m_certFile l else gc) \<and>
       keyPath p = (if m_keyFile l \<noteq> [] then m_keyFile l else gk)"
    by simp_all
next
  assume "(linux env \<longrightarrow> loops \<noteq> []) \<and>
    (\<forall>x \<in> set (take (Suc j) (m_listeners m)).
       (linux env \<longrightarrow> parseable env x \<and> probeOk env 0 x) \<and> tlsReady env gc gk x)"
  then show "\<exists>new. m_servers (managerOf (createListeners env gc gk cmds loops m tr)) = m_servers m @ new \<and>
      j < length new"
    using reached_listener_has_server [OF assms(2), of env loops gc gk cmds tr] by blast
next
  assume ok: "\<forall>x \<in> set (m_listeners m).
    (linux env \<longrightarrow> parseable env x \<and> probeOk env 0 x) \<and> tlsReady env gc gk x"
  from all_in_order_returns [OF ok, of cmds loops tr]
  show "returned (createListeners env gc gk cmds loops m tr)"
    and "\<exists>new. m_servers (managerOf (createListeners env gc gk cmds loops m tr)) = m_servers m @ new \<and>
      length new = (if linux env then length loops else 1) * length (m_listeners m)"
    by simp_all
next
  assume e: "((if m_certFile l \<noteq> [] then m_certFile l else gc) = [] \<or>
      (if m_keyFile l \<noteq> [] then m_keyFile l else gk) = []) \<and>
    (linux env \<longrightarrow> loops \<noteq> [])"
  with assms(1,4) have "\<not> tlsReady env gc gk l"
    by (auto simp: tlsReady_def tlsWanted_def effectiveCert_def effectiveKey_def split: if_splits)
  moreover have "l \<in> set (m_listeners m)" using assms(2,3) by simp
  ultimately show "\<not> returned (createListeners env gc gk cmds loops m tr)"
    using e by (intro not_ready_not_returned) auto
qed

text \<open>
  Claim C3, runs that meet the hypotheses on both platforms: the listener has a
  certificate of its own and inherits the global key, so its one server carries both;
  with no global key the call off Linux does not return.
\<close>

theorem effective_tls_material_witness:
  "supportsTls exLinux \<and> supportsTls exOther \<and> m_useSSL specHttps \<and>
   m_certFile specHttps = ''own.crt'' \<and> m_keyFile specHttps = [] \<and>
   (\<exists>new p.
      m_servers (managerOf (createListeners exLinux ''global.crt'' ''global.key'' [] [1]
                   (managerWith [specHttps]) [])) = new \<and>
      length new = 1 \<and> sslPolicy (new ! 0) = Some p \<and>
      certPath p = ''own.crt'' \<and> keyPath p = ''global.key'') \<and>
   (\<exists>new p.
      m_servers (managerOf (createListeners exOther ''global.crt'' ''global.key'' [] [1]
                   (managerWith [specHttps]) [])) = new \<and>
      length new = 1 \<and> sslPolicy (new ! 0) = Some p \<and>
      certPath p = ''own.crt'' \<and> keyPath p = ''global.key'') \<and>
   \<not> returned (createListeners exOther ''global.crt'' [] [] [1] (managerWith [specHttps]) [])"
proof -
  let ?m = "managerWith [specHttps]"
  have m: "m_listeners ?m = [specHttps]" "m_servers ?m = []"
    by (simp_all add: managerWith_def newListenerManager_def)
  have s: "m_useSSL specHttps" "m_certFile specHttps = ''own.crt''" "m_keyFile specHttps = []"
    by (simp_all add: specHttps_def)
  have j: "0 < length (m_listeners ?m)" "specHttps = m_listeners ?m ! 0" by (simp_all add: m)
  have tl: "supportsTls exLinux" and to: "supportsTls exOther" by (simp_all add: ex_defs)
  have okl: "\<forall>x \<in> set (m_listeners ?m).
      (linux exLinux \<longrightarrow> parseable exLinux x \<and> probeOk exLinux 0 x) \<and>
      tlsReady exLinux ''global.crt'' ''global.key'' x"
    by (simp add: ex_defs parseable_def probeOk_def probed_def tlsReady_def tlsWanted_def
        effectiveCert_def effectiveKey_def listenAddress_def)
  have oko: "\<forall>x \<in> set (m_listeners ?m).
      (linux exOther \<longrightarrow> parseable exOther x \<and> probeOk exOther 0 x) \<and>
      tlsReady exOther ''global.crt'' ''global.key'' x"
    by (simp add: ex_defs tlsReady_def tlsWanted_def effectiveCert_def effectiveKey_def)
  note L = effective_tls_material [OF tl j s(1), of "''global.crt''" "''global.key''" "[]" "[1]" "[]"]
  note O = effective_tls_material [OF to j s(1), of "''global.crt''" "''global.key''" "[]" "[1]" "[]"]
  note B = effective_tls_material [OF to j s(1), of "''global.crt''" "[]" "[]" "[1]" "[]"]
  from L okl obtain newl where
    nl: "m_servers (managerOf (createListeners exLinux ''global.crt'' ''global.key'' [] [1] ?m [])) =
      m_servers ?m @ newl"
      "length newl = (if linux exLinux then length [1::nat] else 1) * length (m_listeners ?m)"
    by blast
  then have ll: "length newl = 1" by (simp add: m)
  with L nl(1) obtain pl where
    "sslPolicy (newl ! 0) = Some pl" "certPath pl = ''own.crt''" "keyPath pl = ''global.key''"
    by (auto simp: m s)
  with nl(1) ll have linux_run: "\<exists>new p.
      m_servers (managerOf (createListeners exLinux ''global.crt'' ''global.key'' [] [1] ?m [])) = new \<and>
      length new = 1 \<and> sslPolicy (new ! 0) = Some p \<and>
      certPath p = ''own.crt'' \<and> keyPath p = ''global.key''"
    by (simp add: m)
  from O oko obtain newo where
    no: "m_servers (managerOf (createListeners exOther ''global.crt'' ''global.key'' [] [1] ?m [])) =
      m_servers ?m @ newo"
      "length newo = (if linux exOther then length [1::nat] else 1) * length (m_listeners ?m)"
    by blast
  then have lo: "length newo = 1" by (simp add: m)
  with O no(1) obtain po where
    "sslPolicy (newo ! 0) = Some po" "certPath po = ''own.crt''" "keyPath po = ''global.key''"
    by (auto simp: m s)
  with no(1) lo have other_run: "\<exists>new p.
      m_servers (managerOf (createListeners exOther ''global.crt'' ''global.key'' [] [1] ?m [])) = new \<and>
      length new = 1 \<and> sslPolicy (new ! 0) = Some p \<and>
      certPath p = ''own.crt'' \<and> keyPath p = ''global.key''"
    by (simp add: m)
  have "\<not> linux exOther" by (simp add: ex_defs)
  with B have bare: "\<not> returned (createListeners exOther ''global.crt'' [] [] [1] ?m [])"
    by (simp add: s)
  from tl to s linux_run other_run bare show ?thesis by blast
qed

subsection \<open>TLS without certificate or key\<close>

text \<open>
  Claim C4, as amended. With TLS available, let some listener ask for TLS while its
  effective certificate path or its effective key path is empty, and on Linux let there
  be a worker loop. Then \<^verbatim>\<open>createListeners\<close> does not return: the process ends, with
  fewer servers appended than listeners declared, none of them with TLS on an empty
  path. When in addition, on Linux, every address parses and every probe succeeds, the
  process ends by \<^verbatim>\<open>exit(1)\<close> and the diagnostic on \<^verbatim>\<open>stderr\<close> is the last thing it wrote.
\<close>

theorem missing_tls_material_is_fatal:
  assumes "supportsTls env"
    and "l \<in> set (m_listeners m)" and "m_useSSL l"
    and "(if m_certFile l \<noteq> [] then m_certFile l else gc) = [] \<or>
         (if m_keyFile l \<noteq> [] then m_keyFile l else gk) = []"
    and "linux env \<longrightarrow> loops \<noteq> []"
  shows "\<exists>k m' tr' new.
           createListeners env gc gk cmds loops m tr = Terminated k m' tr' \<and>
           k \<in> {Aborted, Exited 1, BindFailed} \<and>
           m_servers m' = m_servers m @ new \<and>
           length new < length (m_listeners m) \<and>
           map serverAddress new = map (listenAddress env) (take (length new) (m_listeners m)) \<and>
           l \<notin> set (take (length new) (m_listeners m)) \<and>
           (\<forall>s \<in> set new. \<forall>p. sslPolicy s = Some p \<longrightarrow> certPath p \<noteq> [] \<and> keyPath p \<noteq> []) \<and>
           ((linux env \<longrightarrow> (\<forall>x \<in> set (m_listeners m). parseable env x \<and> probeOk env 0 x)) \<longrightarrow>
            k = Exited 1 \<and>
            (\<exists>tr0. tr' = tr0 @ [Stderr ''You can't use https without cert file or key file'']))"
proof -
  from assms(1,3,4) have notready: "\<not> tlsReady env gc gk l"
    by (auto simp: tlsReady_def tlsWanted_def effectiveCert_def effectiveKey_def split: if_splits)
  show ?thesis
  proof (cases "linux env")
    case True
    with assms(5) have ne: "loops \<noteq> []" by simp
    from notready assms(2) have "\<exists>x \<in> set (m_listeners m). \<not> specOk env gc gk 0 x"
      by (auto simp: specOk_def)
    from linux_first_fatal [OF True ne this, of cmds tr]
    obtain pre x post loop rest where
      sp: "m_listeners m = pre @ x # post" "\<forall>y \<in> set pre. specOk env gc gk 0 y"
        "\<not> specOk env gc gk 0 x" and
      run: "createListeners env gc gk cmds loops m tr =
        createOnLoop env gc gk cmds 0 loop x
          (m\<lparr>m_servers := m_servers m @ map (instanceOnLoop env gc gk cmds m loop) pre\<rparr>)
          (tr @ LogTrace (length loops) # concat (map (eventsOnLoop env 0 loop) pre))"
      by blast
    let ?new = "map (instanceOnLoop env gc gk cmds m loop) pre"
    let ?m1 = "m\<lparr>m_servers := m_servers m @ ?new\<rparr>"
    let ?tr1 = "tr @ LogTrace (length loops) # concat (map (eventsOnLoop env 0 loop) pre)"
    have len: "length ?new < length (m_listeners m)" by (simp add: sp(1))
    have pre: "take (length ?new) (m_listeners m) = pre" by (simp add: sp(1))
    have adr: "map serverAddress ?new = map (listenAddress env) (take (length ?new) (m_listeners m))"
      unfolding pre by (simp add: instanceOnLoop_def)
    have notin: "l \<notin> set (take (length ?new) (m_listeners m))"
      unfolding pre using sp(2) notready by (auto simp: specOk_def)
    have mat: "\<forall>s \<in> set ?new. \<forall>p. sslPolicy s = Some p \<longrightarrow> certPath p \<noteq> [] \<and> keyPath p \<noteq> []"
      using sp(2) by (auto simp: specOk_def dest: instanceOnLoop_material)
    have srv: "m_servers ?m1 = m_servers m @ ?new" by simp
    show ?thesis
    proof (cases "parseable env x \<and> probeOk env 0 x")
      case True
      with sp(3) have "\<not> tlsReady env gc gk x" by (simp add: specOk_def)
      with True have "createListeners env gc gk cmds loops m tr =
          Terminated (Exited 1) ?m1
            ((?tr1 @ eventsOnLoop env 0 loop x) @
             [Stderr ''You can't use https without cert file or key file''])"
        by (simp add: run createOnLoop_no_material)
      with len adr notin mat srv show ?thesis by blast
    next
      case False
      obtain k tr' where t: "createOnLoop env gc gk cmds 0 loop x ?m1 ?tr1 = Terminated k ?m1 tr'"
        "k \<in> {Aborted, Exited 1, BindFailed}"
        using createOnLoop_bad [OF sp(3)] by blast
      from False sp(1) \<open>linux env\<close>
      have "\<not> (linux env \<longrightarrow> (\<forall>x \<in> set (m_listeners m). parseable env x \<and> probeOk env 0 x))"
        by auto
      moreover from run t(1) have "createListeners env gc gk cmds loops m tr = Terminated k ?m1 tr'"
        by simp
      ultimately show ?thesis
        using t(2) len adr notin mat srv
        by (intro exI [of _ k] exI [of _ ?m1] exI [of _ tr'] exI [of _ ?new]) auto
    qed
  next
    case False
    from notready assms(2) obtain pre x post where
      sp: "m_listeners m = pre @ x # post" "\<forall>y \<in> set pre. tlsReady env gc gk y"
        "\<not> tlsReady env gc gk x"
      using split_first_bad [of "m_listeners m" "tlsReady env gc gk"] by blast
    let ?new = "map (instanceOnThread env gc gk cmds loops (newThreadLoop env)) pre"
    let ?m1 = "m\<lparr>m_listeningThread := Some (listeningThread env), m_servers := m_servers m @ ?new\<rparr>"
    let ?tr0 = "tr @ [LogTrace (length loops), ThreadRun (listeningThread env)] @
       map (\<lambda>l. HttpServerCreated (newThreadLoop env) (listenAddress env l) ''drogon'') (pre @ [x])"
    have run: "createListeners env gc gk cmds loops m tr =
        Terminated (Exited 1) ?m1
          (?tr0 @ [Stderr ''You can't use https without cert file or key file''])"
      using createListeners_other_bad [OF False sp, of cmds loops tr] by simp
    have len: "length ?new < length (m_listeners m)" by (simp add: sp(1))
    have pre: "take (length ?new) (m_listeners m) = pre" by (simp add: sp(1))
    have adr: "map serverAddress ?new = map (listenAddress env) (take (length ?new) (m_listeners m))"
      unfolding pre by (simp add: instanceOnThread_def)
    have notin: "l \<notin> set (take (length ?new) (m_listeners m))"
      unfolding pre using sp(2) notready by auto
    have mat: "\<forall>s \<in> set ?new. \<forall>p. sslPolicy s = Some p \<longrightarrow> certPath p \<noteq> [] \<and> keyPath p \<noteq> []"
      using sp(2) by (auto dest: instanceOnThread_material)
    have srv: "m_servers ?m1 = m_servers m @ ?new" by simp
    from run len adr notin mat srv show ?thesis by blast
  qed
qed

text \<open>
  Claim C4 as stated fails. On Linux with no worker loop the call returns although a
  listener asks for TLS without certificate or key. Where the process does exit, a
  listener declared before the faulty one already has its server with TLS enabled. And
  on Linux a literal that does not parse, declared before the faulty listener, ends the
  process by \<^verbatim>\<open>abort()\<close> after the fatal log line, with no exit status and nothing on
  \<^verbatim>\<open>stderr\<close> about TLS.
\<close>

theorem missing_tls_material_is_fatal_counterexample:
  "supportsTls exLinux \<and> m_useSSL specHttpsBare \<and>
   m_certFile specHttpsBare = [] \<and> m_keyFile specHttpsBare = [] \<and>
   createListeners exLinux [] [] [] [] (managerWith [specHttpsBare]) [] =
     Returned (managerWith [specHttpsBare]) [LogTrace 0] \<and>
   supportsTls exOther \<and>
   \<not> returned (createListeners exOther [] ''global.key'' [] [1]
                  (managerWith [specHttps, specHttpsBare]) []) \<and>
   map sslPolicy
     (m_servers (managerOf (createListeners exOther [] ''global.key'' [] [1]
                  (managerWith [specHttps, specHttpsBare]) []))) =
     [Some \<lparr>certPath = ''own.crt'', keyPath = ''global.key'', confCmds = [],
            policyUseOldTLS = False\<rparr>] \<and>
   createListeners exLinux [] [] [] [1] (managerWith [specNotAnIp, specHttpsBare]) [] =
     Terminated Aborted (managerWith [specNotAnIp, specHttpsBare])
       [LogTrace 1, LogFatal ''not-an-ip'']"
  by (simp add: ex_defs run_defs)

text \<open>
  Claim C4, a run that meets the hypotheses: the second of two listeners asks for TLS
  and has no certificate.
\<close>

theorem missing_tls_material_is_fatal_witness:
  "supportsTls exLinux \<and> specHttpsBare \<in> set [specHttps, specHttpsBare] \<and>
   m_useSSL specHttpsBare \<and> m_certFile specHttpsBare = [] \<and>
   (\<exists>m' tr0.
      createListeners exLinux [] ''global.key'' [] [1] (managerWith [specHttps, specHttpsBare]) [] =
        Terminated (Exited 1) m'
          (tr0 @ [Stderr ''You can't use https without cert file or key file'']) \<and>
      length (m_servers m') < 2 \<and>
      specHttpsBare \<notin> set (take (length (m_servers m')) [specHttps, specHttpsBare]))"
proof -
  let ?m = "managerWith [specHttps, specHttpsBare]"
  have h1: "supportsTls exLinux" by (simp add: ex_defs)
  have h2: "specHttpsBare \<in> set (m_listeners ?m)" by (simp add: managerWith_def newListenerManager_def)
  have h3: "m_useSSL specHttpsBare" by (simp add: ex_defs)
  have h4: "(if m_certFile specHttpsBare \<noteq> [] then m_certFile specHttpsBare else []) = [] \<or>
      (if m_keyFile specHttpsBare \<noteq> [] then m_keyFile specHttpsBare else ''global.key'') = []"
    by (simp add: ex_defs)
  have h5: "linux exLinux \<longrightarrow> [1::nat] \<noteq> []" by simp
  have h6: "linux exLinux \<longrightarrow> (\<forall>x \<in> set (m_listeners ?m). parseable exLinux x \<and> probeOk exLinux 0 x)"
    by (simp add: ex_defs parseable_def probeOk_def probed_def listenAddress_def)
  from missing_tls_material_is_fatal [OF h1 h2 h3 h4 h5, of "[]" "[]"] h6
  obtain m' tr0 new where
    "createListeners exLinux [] ''global.key'' [] [1] ?m [] =
       Terminated (Exited 1) m' (tr0 @ [Stderr ''You can't use https without cert file or key file''])"
    "m_servers m' = m_servers ?m @ new" "length new < length (m_listeners ?m)"
    "specHttpsBare \<notin> set (take (length new) (m_listeners ?m))"
    by blast
  then show ?thesis
    using h1 h3 by (auto simp: managerWith_def newListenerManager_def specHttpsBare_def)
qed

subsection \<open>TLS directives\<close>

text \<open>
  Claim C5 at one input, on both platforms: a listener with TLS and one directive of its
  own, and one global directive. Off Linux the policy of the server holds the global
  directive alone, where the claim has the listener's directive after it; on Linux it
  holds both, in that order.
\<close>

theorem listener_conf_cmds_on_each_platform:
  "map (map_option confCmds \<circ> sslPolicy)
     (m_servers (managerOf (createListeners exOther ''global.crt'' ''global.key''
                  [(''MinProtocol'', ''TLSv1.2'')] [1] (managerWith [specHttps]) []))) =
     [Some [(''MinProtocol'', ''TLSv1.2'')]] \<and>
   map (map_option confCmds \<circ> sslPolicy)
     (m_servers (managerOf (createListeners exLinux ''global.crt'' ''global.key''
                  [(''MinProtocol'', ''TLSv1.2'')] [1] (managerWith [specHttps]) []))) =
     [Some [(''MinProtocol'', ''TLSv1.2''), (''Ciphersuites'', ''TLS_AES_256_GCM_SHA384'')]]"
  by (simp add: ex_defs run_defs)

subsection \<open>Addresses that do not parse\<close>

text \<open>
  Claim C6, as amended. On Linux with at least one worker loop, let the literal of some
  listener fail to parse, in the IPv6 family when it has a colon and in the IPv4 family
  otherwise. Then \<^verbatim>\<open>createListeners\<close> does not return: the process ends, with fewer
  servers appended than listeners declared, each of them on a parsed address of the
  family its literal selects. When no probe and no TLS material fails, the process ends
  by \<^verbatim>\<open>abort()\<close> right after the fatal log line that names an unparseable literal.
\<close>

theorem unparseable_address_is_fatal:
  assumes "linux env" and "loops \<noteq> []"
    and "l \<in> set (m_listeners m)"
    and "\<not> inet_pton env (CHR '':'' \<in> set (m_ip l)) (m_ip l)"
  shows "\<exists>k m' tr' new.
           createListeners env gc gk cmds loops m tr = Terminated k m' tr' \<and>
           k \<in> {Aborted, Exited 1, BindFailed} \<and>
           m_servers m' = m_servers m @ new \<and>
           length new < length (m_listeners m) \<and>
           map serverAddress new = map (listenAddress env) (take (length new) (m_listeners m)) \<and>
           l \<notin> set (take (length new) (m_listeners m)) \<and>
           (\<forall>s \<in> set new. \<not> isUnspecified (serverAddress s) \<and>
              isIpV6 (serverAddress s) = (CHR '':'' \<in> set (addrIp (serverAddress s)))) \<and>
           ((\<forall>x \<in> set (m_listeners m). probeOk env 0 x \<and> tlsReady env gc gk x) \<longrightarrow>
            k = Aborted \<and>
            (\<exists>tr0 x. x \<in> set (m_listeners m) \<and> \<not> parseable env x \<and> tr' = tr0 @ [LogFatal (m_ip x)]))"
proof -
  from assms(4) have bad: "\<not> specOk env gc gk 0 l"
    by (simp add: specOk_def parseable_def)
  with assms(3) have "\<exists>x \<in> set (m_listeners m). \<not> specOk env gc gk 0 x" by blast
  from linux_first_fatal [OF assms(1,2) this, of cmds tr]
  obtain pre x post loop rest where
    sp: "m_listeners m = pre @ x # post" "\<forall>y \<in> set pre. specOk env gc gk 0 y"
      "\<not> specOk env gc gk 0 x" and
    run: "createListeners env gc gk cmds loops m tr =
      createOnLoop env gc gk cmds 0 loop x
        (m\<lparr>m_servers := m_servers m @ map (instanceOnLoop env gc gk cmds m loop) pre\<rparr>)
        (tr @ LogTrace (length loops) # concat (map (eventsOnLoop env 0 loop) pre))"
    by blast
  let ?new = "map (instanceOnLoop env gc gk cmds m loop) pre"
  let ?m1 = "m\<lparr>m_servers := m_servers m @ ?new\<rparr>"
  let ?tr1 = "tr @ LogTrace (length loops) # concat (map (eventsOnLoop env 0 loop) pre)"
  have len: "length ?new < length (m_listeners m)" by (simp add: sp(1))
  have pre: "take (length ?new) (m_listeners m) = pre" by (simp add: sp(1))
  have adr: "map serverAddress ?new = map (listenAddress env) (take (length ?new) (m_listeners m))"
    unfolding pre by (simp add: instanceOnLoop_def)
  have notin: "l \<notin> set (take (length ?new) (m_listeners m))"
    unfolding pre using sp(2) bad by auto
  have fam: "\<forall>s \<in> set ?new. \<not> isUnspecified (serverAddress s) \<and>
      isIpV6 (serverAddress s) = (CHR '':'' \<in> set (addrIp (serverAddress s)))"
    using sp(2) by (auto simp: specOk_def dest: instanceOnLoop_address)
  have srv: "m_servers ?m1 = m_servers m @ ?new" by simp
  have x: "x \<in> set (m_listeners m)" by (simp add: sp(1))
  show ?thesis
  proof (cases "parseable env x")
    case False
    then have "createListeners env gc gk cmds loops m tr =
        Terminated Aborted ?m1 (?tr1 @ [LogFatal (m_ip x)])"
      by (simp add: run createOnLoop_unparseable)
    with len adr notin fam srv x False show ?thesis by blast
  next
    case True
    obtain k tr' where t: "createOnLoop env gc gk cmds 0 loop x ?m1 ?tr1 = Terminated k ?m1 tr'"
      "k \<in> {Aborted, Exited 1, BindFailed}"
      using createOnLoop_bad [OF sp(3)] by blast
    from True sp(3) x
    have "\<not> (\<forall>x \<in> set (m_listeners m). probeOk env 0 x \<and> tlsReady env gc gk x)"
      by (auto simp: specOk_def)
    moreover from run t(1) have "createListeners env gc gk cmds loops m tr = Terminated k ?m1 tr'"
      by simp
    ultimately show ?thesis
      using t(2) len adr notin fam srv
      by (intro exI [of _ k] exI [of _ ?m1] exI [of _ tr'] exI [of _ ?new]) auto
  qed
qed

text \<open>
  Claim C6 as stated fails. On Linux with no worker loop the call returns although the
  literal of the listener does not parse. Off Linux the call returns too, and the
  manager holds a server on the unspecified address. And on Linux a listener that asks
  for TLS without certificate or key, declared before the literal that does not parse,
  ends the process by \<^verbatim>\<open>exit(1)\<close> before that literal is looked at.
\<close>

theorem unparseable_address_is_fatal_counterexample:
  "\<not> parseable exLinux specNotAnIp \<and>
   createListeners exLinux [] [] [] [] (managerWith [specNotAnIp]) [] =
     Returned (managerWith [specNotAnIp]) [LogTrace 0] \<and>
   \<not> parseable exOther specNotAnIp \<and>
   returned (createListeners exOther [] [] [] [1] (managerWith [specNotAnIp]) []) \<and>
   map (isUnspecified \<circ> serverAddress)
     (m_servers (managerOf (createListeners exOther [] [] [] [1] (managerWith [specNotAnIp]) []))) =
     [True] \<and>
   createListeners exLinux [] [] [] [1] (managerWith [specHttpsBare, specNotAnIp]) [] =
     Terminated (Exited 1) (managerWith [specHttpsBare, specNotAnIp])
       [LogTrace 1, OpenLockFile ''/tmp/drogon.lock'', FlockExclusive,
        ProbeBind 0 (listenAddress exLinux specHttpsBare) ''drogonPortTest'',
        ProbeDestroyed, CloseLockFile,
        HttpServerCreated 1 (listenAddress exLinux specHttpsBare) ''drogon'',
        Stderr ''You can't use https without cert file or key file'']"
  by (simp add: ex_defs run_defs parseable_def)

text \<open>
  Claim C6, a run that meets the hypotheses: the second of two listeners has the literal
  \<^verbatim>\<open>not-an-ip\<close>.
\<close>

theorem unparseable_address_is_fatal_witness:
  "linux exLinux \<and> specNotAnIp \<in> set [specHttp, specNotAnIp] \<and>
   \<not> inet_pton exLinux (CHR '':'' \<in> set (m_ip specNotAnIp)) (m_ip specNotAnIp) \<and>
   (\<exists>m' tr0.
      createListeners exLinux [] [] [] [1] (managerWith [specHttp, specNotAnIp]) [] =
        Terminated Aborted m' (tr0 @ [LogFatal ''not-an-ip'']) \<and>
      length (m_servers m') < 2 \<and>
      specNotAnIp \<notin> set (take (length (m_servers m')) [specHttp, specNotAnIp]))"
proof -
  let ?m = "managerWith [specHttp, specNotAnIp]"
  have h1: "linux exLinux" by (simp add: ex_defs)
  have h2: "[1::nat] \<noteq> []" by simp
  have h3: "specNotAnIp \<in> set (m_listeners ?m)" by (simp add: managerWith_def newListenerManager_def)
  have h4: "\<not> inet_pton exLinux (CHR '':'' \<in> set (m_ip specNotAnIp)) (m_ip specNotAnIp)"
    by (simp add: ex_defs)
  have h5: "\<forall>x \<in> set (m_listeners ?m). probeOk exLinux 0 x \<and> tlsReady exLinux [] [] x"
    by (simp add: ex_defs probeOk_def probed_def tlsReady_def tlsWanted_def)
  have p: "parseable exLinux specHttp" by (simp add: ex_defs parseable_def)
  from unparseable_address_is_fatal [OF h1 h2 h3 h4, of "[]" "[]" "[]" "[]"] h5
  obtain m' tr0 new x where
    r: "createListeners exLinux [] [] [] [1] ?m [] = Terminated Aborted m' (tr0 @ [LogFatal (m_ip x)])" and
    n: "m_servers m' = m_servers ?m @ new" "length new < length (m_listeners ?m)"
      "specNotAnIp \<notin> set (take (length new) (m_listeners ?m))" and
    x: "x \<in> set (m_listeners ?m)" "\<not> parseable exLinux x"
    by blast
  from x p have "x = specNotAnIp" by (auto simp: managerWith_def newListenerManager_def)
  then have "m_ip x = ''not-an-ip''" by (simp add: specNotAnIp_def)
  with r n h1 h4 show ?thesis
    by (auto simp: managerWith_def newListenerManager_def)
qed

subsection \<open>Callbacks\<close>

text \<open>
  Claim C7 at one input, on both platforms: the three callbacks are set before
  \<^verbatim>\<open>createListeners\<close> runs. Off Linux the server has none of them, where the claim has
  all three installed; on Linux it has all three.
\<close>

theorem callbacks_on_each_platform:
  "map (\<lambda>s. (beforeListenSockOptCallback s, afterAcceptSockOptCallback s, connectionCallback s))
     (m_servers (managerOf (createListeners exOther [] [] [] [1] exCallbacks []))) =
     [(None, None, None)] \<and>
   map (\<lambda>s. (beforeListenSockOptCallback s, afterAcceptSockOptCallback s, connectionCallback s))
     (m_servers (managerOf (createListeners exLinux [] [] [] [1] exCallbacks []))) =
     [(Some (SockOptCallback 1), Some (SockOptCallback 2), Some (ConnectionCallback 3))]"
  by (simp add: ex_defs run_defs exCallbacks_def setConnectionCallback_def
      setAfterAcceptSockOptCallback_def setBeforeListenSockOptCallback_def)

subsection \<open>The bind probe\<close>

text \<open>
  Claim C8. On Linux, the events of a (loop, listener) pair are the probe followed by the
  construction of the server when the loop has index 0 and port sharing is off, and
  the construction alone otherwise; within the probe the lock file is opened and locked
  exclusively before the bind, and closed after the throwaway server is gone and before
  the real server is constructed. However \<^verbatim>\<open>createListeners\<close> ends, its trace is the
  events of the first \<open>n\<close> pairs in the order of the loops, followed by nothing when it
  returns (then all \<open>N \<times> M\<close> pairs are there), or by the diagnostic, the fatal log line
  or the started probe at which the process ended.
\<close>

theorem bind_probe_schedule:
  assumes "linux env"
  shows "(\<forall>i loop l. eventsOnLoop env i loop l =
            (if i = 0 \<and> \<not> reusePort env
             then [OpenLockFile ''/tmp/drogon.lock'', FlockExclusive,
                   ProbeBind (mainLoop env) (listenAddress env l) ''drogonPortTest'',
                   ProbeDestroyed, CloseLockFile,
                   HttpServerCreated loop (listenAddress env l) ''drogon'']
             else [HttpServerCreated loop (listenAddress env l) ''drogon''])) \<and>
         (\<exists>n tail.
            traceOf (createListeners env gc gk cmds loops m tr) =
              tr @ LogTrace (length loops) #
              concat (map (pairEvents env) (take n (loopSpecPairs loops (m_listeners m)))) @ tail \<and>
            n \<le> length loops * length (m_listeners m) \<and>
            (returned (createListeners env gc gk cmds loops m tr) \<longrightarrow>
               n = length loops * length (m_listeners m) \<and> tail = []) \<and>
            (tail = [] \<or>
             0 < n \<and> tail = [Stderr ''You can't use https without cert file or key file''] \<or>
             n < length (m_listeners m) \<and> tail = [LogFatal (m_ip (m_listeners m ! n))] \<or>
             n < length (m_listeners m) \<and> \<not> reusePort env \<and>
               tail = [OpenLockFile ''/tmp/drogon.lock'', FlockExclusive,
                       ProbeBind (mainLoop env) (listenAddress env (m_listeners m ! n))
                         ''drogonPortTest'']))"
proof (intro conjI)
  show "\<forall>i loop l. eventsOnLoop env i loop l =
            (if i = 0 \<and> \<not> reusePort env
             then [OpenLockFile ''/tmp/drogon.lock'', FlockExclusive,
                   ProbeBind (mainLoop env) (listenAddress env l) ''drogonPortTest'',
                   ProbeDestroyed, CloseLockFile,
                   HttpServerCreated loop (listenAddress env l) ''drogon'']
             else [HttpServerCreated loop (listenAddress env l) ''drogon''])"
    by (simp add: eventsOnLoop_def probed_def probeEvents_def probeStart_def)
next
  let ?ls = "m_listeners m"
  let ?r = "createListeners env gc gk cmds loops m tr"
  let ?P = "\<lambda>n tail.
      traceOf ?r = tr @ LogTrace (length loops) #
        concat (map (pairEvents env) (take n (loopSpecPairs loops ?ls))) @ tail \<and>
      n \<le> length loops * length ?ls \<and>
      (returned ?r \<longrightarrow> n = length loops * length ?ls \<and> tail = []) \<and>
      (tail = [] \<or>
       0 < n \<and> tail = [Stderr ''You can't use https without cert file or key file''] \<or>
       n < length ?ls \<and> tail = [LogFatal (m_ip (?ls ! n))] \<or>
       n < length ?ls \<and> \<not> reusePort env \<and>
         tail = [OpenLockFile ''/tmp/drogon.lock'', FlockExclusive,
                 ProbeBind (mainLoop env) (listenAddress env (?ls ! n)) ''drogonPortTest''])"
  show "\<exists>n tail. ?P n tail"
  proof (cases "loops = [] \<or> (\<forall>l \<in> set ?ls. specOk env gc gk 0 l)")
    case True
    have "?P (length loops * length ?ls) []"
    proof (cases "loops = []")
      case e: True
      then show ?thesis using assms by (simp add: createListeners_linux_empty)
    next
      case False
      with True have ok: "\<forall>l \<in> set ?ls. specOk env gc gk 0 l" by simp
      have "take (length loops * length ?ls) (loopSpecPairs loops ?ls) = loopSpecPairs loops ?ls"
        by (simp add: loopSpecPairs_length)
      then show ?thesis
        by (simp add: createListeners_linux_ok [OF assms ok] loopEvents_pairs loopSpecPairs_def)
    qed
    then show ?thesis by blast
  next
    case False
    then have ne: "loops \<noteq> []" and bad: "\<exists>x \<in> set ?ls. \<not> specOk env gc gk 0 x" by auto
    from linux_first_fatal [OF assms ne bad, of cmds tr]
    obtain pre x post loop rest where
      l: "loops = loop # rest" and
      sp: "?ls = pre @ x # post" "\<forall>y \<in> set pre. specOk env gc gk 0 y"
        "\<not> specOk env gc gk 0 x" and
      run: "?r =
        createOnLoop env gc gk cmds 0 loop x
          (m\<lparr>m_servers := m_servers m @ map (instanceOnLoop env gc gk cmds m loop) pre\<rparr>)
          (tr @ LogTrace (length loops) # concat (map (eventsOnLoop env 0 loop) pre))"
      by blast
    have row: "concat (map (pairEvents env) (take (length pre) (loopSpecPairs loops ?ls))) =
        concat (map (eventsOnLoop env 0 loop) pre)"
      by (simp add: l loopSpecPairs_first_row sp(1) pairEvents_row)
    have row1: "concat (map (pairEvents env) (take (Suc (length pre)) (loopSpecPairs loops ?ls))) =
        concat (map (eventsOnLoop env 0 loop) pre) @ eventsOnLoop env 0 loop x"
      by (simp add: l loopSpecPairs_first_row sp(1) pairEvents_row pairEvents_def)
    have nth: "?ls ! length pre = x" by (simp add: sp(1))
    have lt: "length pre < length ?ls" by (simp add: sp(1))
    have le: "Suc (length pre) \<le> length loops * length ?ls" by (simp add: sp(1) l)
    show ?thesis
    proof (cases "parseable env x")
      case False
      then have "?P (length pre) [LogFatal (m_ip x)]"
        using lt le by (simp add: run createOnLoop_unparseable row nth)
      then show ?thesis by blast
    next
      case p: True
      show ?thesis
      proof (cases "probeOk env 0 x")
        case False
        then have "\<not> reusePort env" by (simp add: probeOk_def probed_def)
        with p False have "?P (length pre) (probeStart env x)"
          using lt le by (simp add: run createOnLoop_bind_failed row nth probeStart_def)
        then show ?thesis by blast
      next
        case True
        with p sp(3) have "\<not> tlsReady env gc gk x" by (simp add: specOk_def)
        with p True
        have "?P (Suc (length pre)) [Stderr ''You can't use https without cert file or key file'']"
          using le by (simp add: run createOnLoop_no_material row1)
        then show ?thesis by blast
      qed
    qed
  qed
qed

text \<open>
  Claim C8, a run on Linux with port sharing off: two worker loops and one listener.
  Loop 0 probes before it constructs its server, loop 1 does not.
\<close>

theorem bind_probe_schedule_witness:
  "linux exLinux \<and> \<not> reusePort exLinux \<and>
   traceOf (createListeners exLinux [] [] [] [1, 2] (managerWith [specHttp]) []) =
     [LogTrace 2, OpenLockFile ''/tmp/drogon.lock'', FlockExclusive,
      ProbeBind 0 (listenAddress exLinux specHttp) ''drogonPortTest'',
      ProbeDestroyed, CloseLockFile,
      HttpServerCreated 1 (listenAddress exLinux specHttp) ''drogon'',
      HttpServerCreated 2 (listenAddress exLinux specHttp) ''drogon'']"
proof -
  let ?m = "managerWith [specHttp]"
  let ?r = "createListeners exLinux [] [] [] [1, 2] ?m []"
  have h1: "linux exLinux" by (simp add: ex_defs)
  have h2: "\<not> reusePort exLinux" by (simp add: ex_defs)
  have ret: "returned ?r" by (simp add: ex_defs run_defs)
  from bind_probe_schedule [OF h1, of "[]" "[]" "[]" "[1, 2]" ?m "[]"]
  obtain n tail where
    ev: "\<forall>i loop l. eventsOnLoop exLinux i loop l =
            (if i = 0 \<and> \<not> reusePort exLinux
             then [OpenLockFile ''/tmp/drogon.lock'', FlockExclusive,
                   ProbeBind (mainLoop exLinux) (listenAddress exLinux l) ''drogonPortTest'',
                   ProbeDestroyed, CloseLockFile,
                   HttpServerCreated loop (listenAddress exLinux l) ''drogon'']
             else [HttpServerCreated loop (listenAddress exLinux l) ''drogon''])" and
    t: "traceOf ?r = [] @ LogTrace (length [1::nat, 2]) #
          concat (map (pairEvents exLinux) (take n (loopSpecPairs [1, 2] (m_listeners ?m)))) @ tail" and
    full: "returned ?r \<longrightarrow> n = length [1::nat, 2] * length (m_listeners ?m) \<and> tail = []"
    by blast
  from full ret have n: "n = 2" "tail = []"
    by (simp_all add: managerWith_def newListenerManager_def)
  have upt: "[0 ..< length [1::nat, 2]] = [0, 1]"
    by (simp add: upt_rec)
  have pairs: "loopSpecPairs [1, 2] (m_listeners ?m) = [(0, 1, specHttp), (1, 2, specHttp)]"
    unfolding loopSpecPairs_def upt by (simp add: managerWith_def newListenerManager_def)
  have main: "mainLoop exLinux = 0" by (simp add: ex_defs)
  show ?thesis
    using h1 h2 unfolding t n pairs by (simp add: pairEvents_def ev main)
qed

subsection \<open>Stopping\<close>

text \<open>
  Claim C9. \<^verbatim>\<open>stopListening\<close> stops every server of the manager, in order. With no
  listening thread that is all. With one, the loop of the thread is told to quit after
  the last stop and the thread is waited for before the call returns, unless the
  \<^verbatim>\<open>assert\<close> is compiled in and the caller is that very thread, in which case the
  process aborts after the stops.
\<close>

theorem stopListening_order:
  "stopListening env m tr =
     (case m_listeningThread m of
        None \<Rightarrow> Returned m (tr @ map ServerStop (m_servers m))
      | Some th \<Rightarrow>
          if assertEnabled env \<and> isInLoopThread env (threadLoop th)
          then Terminated Aborted m (tr @ map ServerStop (m_servers m) @ [AssertionFailed])
          else Returned m
                 (tr @ map ServerStop (m_servers m) @ [LoopQuit (threadLoop th), ThreadWait th]))"
  by (simp add: stopListening_def foldl_events Let_def split: option.splits)

text \<open>
  Claim C9, a run: two servers on the loop of the listening thread, stopped before the
  loop is told to quit.
\<close>

theorem stopListening_order_witness:
  "m_listeningThread exRunning = Some (listeningThread exOther) \<and>
   length (m_servers exRunning) = 2 \<and>
   stopListening exOther exRunning [] =
     Returned exRunning
       (map ServerStop (m_servers exRunning) @ [LoopQuit 9, ThreadWait (listeningThread exOther)])"
proof -
  have th: "m_listeningThread exRunning = Some (listeningThread exOther)"
    by (simp add: exRunning_def ex_defs run_defs listeningThread_def)
  have len: "length (m_servers exRunning) = 2"
    by (simp add: exRunning_def ex_defs run_defs)
  have env: "\<not> (assertEnabled exOther \<and> isInLoopThread exOther (threadLoop (listeningThread exOther)))"
    "threadLoop (listeningThread exOther) = 9"
    by (simp_all add: ex_defs listeningThread_def)
  from stopListening_order [of exOther exRunning "[]"] th len env
  show ?thesis by simp
qed

subsection \<open>No worker loop\<close>

text \<open>
  Claim C10. On Linux with no worker loop, \<^verbatim>\<open>createListeners\<close> returns with the manager
  unchanged, whatever listeners are declared, and the only event is the trace line; a
  manager that had no server still has none, so \<^verbatim>\<open>getListeners\<close> is empty.
\<close>

theorem no_worker_loops_no_listeners:
  assumes "linux env" and "m_servers m = []"
  shows "createListeners env gc gk cmds [] m tr = Returned m (tr @ [LogTrace 0]) \<and>
         getListeners (managerOf (createListeners env gc gk cmds [] m tr)) = []"
  using assms by (simp add: createListeners_linux_empty getListeners_def)

text \<open>
  Claim C10, a run on Linux with no worker loop: one of the two listeners has a literal
  that does not parse, the other asks for TLS without certificate or key.
\<close>

theorem no_worker_loops_no_listeners_witness:
  "linux exLinux \<and> m_servers (managerWith [specNotAnIp, specHttpsBare]) = [] \<and>
   createListeners exLinux [] [] [] [] (managerWith [specNotAnIp, specHttpsBare]) [] =
     Returned (managerWith [specNotAnIp, specHttpsBare]) [LogTrace 0] \<and>
   getListeners (managerOf (createListeners exLinux [] [] [] []
                   (managerWith [specNotAnIp, specHttpsBare]) [])) = []"
proof -
  have h1: "linux exLinux" by (simp add: ex_defs)
  have h2: "m_servers (managerWith [specNotAnIp, specHttpsBare]) = []"
    by (simp add: managerWith_def newListenerManager_def)
  from no_worker_loops_no_listeners [OF h1 h2, of "[]" "[]" "[]" "[]"] h1 h2
  show ?thesis by (auto simp: getListeners_def)
qed

end
